theory Spec2Isabelle
  imports
    Complex_Main
    "HOL-Library.Char_ord"
    "HOL-Library.List_Lexorder"
    "HOL-Library.Multiset"
begin

section \<open>Numbers and records\<close>

text \<open>
  The dashboard is TypeScript; every number is an IEEE double. A finite double is modelled
  by the real number it denotes (the sign of a zero is not kept: \<open>-0\<close> prints as \<open>0\<close>,
  so it never reaches a key or a label). \<open>Math.floor\<close>, \<open>Math.max\<close>, \<open>Math.min\<close> and
  comparisons are exact on doubles as they are on reals.

  Where the bucket of a histogram is computed, the quotient and the product are rounded as
  the double operations round them (\<open>round_double\<close> below), and a result beyond the range
  is an infinity. The sums and averages of the monthly series and of the moving average are
  the exact ones; their rounding is not modelled.

  \<open>interface Profile\<close> of \<open>DataVisualization.tsx\<close> declares every field a number. The
  list comes unvalidated out of \<open>response.json()\<close>, so a measured field can arrive as JSON
  \<open>null\<close>: \<open>temperature\<close> and \<open>salinity\<close> are options, \<open>None\<close> being \<open>null\<close>.
  \<open>month\<close> and \<open>year\<close> are integers (they are printed into the month key, and an
  integer below \<open>10^21\<close> prints as its decimal digits); \<open>depth\<close> is a number.
  The field \<open>id\<close> is named \<open>pid\<close> here.
\<close>

record Profile =
  pid :: int
  latitude :: real
  longitude :: real
  depth :: real
  temperature :: "real option"
  salinity :: "real option"
  month :: int
  year :: int

text \<open>\<open>ToNumber\<close> on a field used in arithmetic: \<open>null\<close> converts to \<open>0\<close>.\<close>

fun toNumber :: "real option \<Rightarrow> real" where
  "toNumber None = 0"
| "toNumber (Some v) = v"

subsection \<open>Double arithmetic\<close>

text \<open>
  A number that is not \<open>NaN\<close>: a finite double or an infinity. The order is the one
  \<open>(a, b) => a - b\<close> sorts by (the difference of two equal infinities is \<open>NaN\<close>, which
  \<open>sort\<close> takes as \<open>0\<close>).
\<close>

datatype number = NegInf | Fin real | PosInf

instantiation number :: linorder
begin

fun less_eq_number :: "number \<Rightarrow> number \<Rightarrow> bool" where
  "less_eq_number NegInf b = True"
| "less_eq_number (Fin x) NegInf = False"
| "less_eq_number (Fin x) (Fin y) = (x \<le> y)"
| "less_eq_number (Fin x) PosInf = True"
| "less_eq_number PosInf PosInf = True"
| "less_eq_number PosInf b = False"

definition less_number :: "number \<Rightarrow> number \<Rightarrow> bool" where
  "less_number a b \<longleftrightarrow> a \<le> b \<and> \<not> b \<le> a"

instance
proof
  fix a b c :: number
  show "a < b \<longleftrightarrow> a \<le> b \<and> \<not> b \<le> a" by (rule less_number_def)
  show "a \<le> a" by (cases a) simp_all
  show "a \<le> b \<Longrightarrow> b \<le> c \<Longrightarrow> a \<le> c" by (cases a; cases b; cases c) simp_all
  show "a \<le> b \<Longrightarrow> b \<le> a \<Longrightarrow> a = b" by (cases a; cases b) simp_all
  show "a \<le> b \<or> b \<le> a" by (cases a; cases b) auto
qed

end

text \<open>
  Rounding a real to the nearest double, ties to the even significand. A double is
  \<open>m * 2^e\<close> with \<open>|m| < 2^53\<close> and \<open>-1074 \<le> e\<close>: for \<open>x\<close> with
  \<open>2^k \<le> |x| < 2^(k+1)\<close> the spacing of the doubles around \<open>x\<close> is \<open>2^(k - 52)\<close>, and
  \<open>2^-1074\<close> below \<open>2^-1022\<close>. A result of magnitude \<open>2^1024\<close> or more is an infinity.
  \<open>bit_length n\<close> is the number of binary digits of \<open>n\<close>, and \<open>ilog2 x\<close> the \<open>k\<close>
  above, for \<open>x > 0\<close>.
\<close>

fun bit_length :: "nat \<Rightarrow> nat" where
  "bit_length n = (if n = 0 then 0 else bit_length (n div 2) + 1)"

declare bit_length.simps [simp del]

definition pow2 :: "int \<Rightarrow> real" where
  "pow2 e = (if 0 \<le> e then 2 ^ nat e else 1 / 2 ^ nat (- e))"

definition ilog2 :: "real \<Rightarrow> int" where
  "ilog2 x = (if 1 \<le> x then int (bit_length (nat \<lfloor>x\<rfloor>)) - 1
              else - int (bit_length (nat (\<lceil>1 / x\<rceil> - 1))))"

definition round_half_even :: "real \<Rightarrow> int" where
  "round_half_even q =
     (let f = \<lfloor>q\<rfloor>; r = q - of_int f
      in if r < 1 / 2 then f else if 1 / 2 < r then f + 1 else if even f then f else f + 1)"

definition round_double :: "real \<Rightarrow> number" where
  "round_double x =
     (if x = 0 then Fin 0
      else let e = max (ilog2 \<bar>x\<bar>) (- 1022) - 52;
               y = of_int (round_half_even (x / pow2 e)) * pow2 e
           in if 2 ^ 1024 \<le> y then PosInf else if y \<le> - (2 ^ 1024) then NegInf else Fin y)"

text \<open>The literal \<open>0.1\<close>: the double nearest to one tenth.\<close>

definition double_tenth :: real where
  "double_tenth = 3602879701896397 / 36028797018963968"

section \<open>Objects used as counting tables\<close>

text \<open>
  \<open>const bins: Record<number, number> = {}\<close> is a plain object: its property keys are
  strings, a number used as a key being printed first. The table is an association list in
  insertion order. \<open>bins[bin] = (bins[bin] || 0) + 1\<close> is \<open>incr\<close>.
\<close>

fun incr :: "'k \<Rightarrow> ('k \<times> nat) list \<Rightarrow> ('k \<times> nat) list" where
  "incr k [] = [(k, 0 + 1)]"
| "incr k ((k', c) # kvs) =
     (if k = k' then (k', c + 1) # kvs else (k', c) # incr k kvs)"

text \<open>
  \<open>Object.entries\<close> lists the keys that are array indices (the canonical decimal strings
  of the integers from \<open>0\<close> to \<open>2^32 - 2\<close>) first, in ascending numeric order, and then
  every other key in insertion order. \<open>index\<close> gives the array index a key denotes, if
  any.
\<close>

definition object_entries :: "('k \<Rightarrow> nat option) \<Rightarrow> ('k \<times> 'v) list \<Rightarrow> ('k \<times> 'v) list" where
  "object_entries index kvs =
     sort_key (\<lambda>kv. the (index (fst kv))) (filter (\<lambda>kv. index (fst kv) \<noteq> None) kvs)
       @ filter (\<lambda>kv. index (fst kv) = None) kvs"

text \<open>A key given as a string: the decimal digits of an index, with no leading zero.\<close>

definition decimal :: "string \<Rightarrow> nat" where
  "decimal s = foldl (\<lambda>n c. n * 10 + (of_char c - 48)) 0 s"

definition array_index :: "string \<Rightarrow> nat option" where
  "array_index s =
     (if s \<noteq> [] \<and> list_all (\<lambda>c. CHR ''0'' \<le> c \<and> c \<le> CHR ''9'') s
         \<and> (s = ''0'' \<or> hd s \<noteq> CHR ''0'') \<and> decimal s < 4294967295
      then Some (decimal s) else None)"

section \<open>Histograms (\<open>tempBins\<close>, \<open>salBins\<close>)\<close>

text \<open>
  \<^verbatim>\<open>
  const w = Math.max(0.1, tempBinWidth)
  for (const p of filteredProfiles) {
    const bin = Math.floor(p.temperature / w) * w
    bins[bin] = (bins[bin] || 0) + 1
  }
  return Object.entries(bins).map(([t, c]) => ({ temp: Number(t), count: c }))
    .sort((a, b) => a.temp - b.temp)
  \<close>
  The two histograms differ in the field only. \<open>Array.prototype.sort\<close> is stable, as
  \<open>sort_key\<close> is. The bin width is component state, a finite number (the input handler
  stores \<open>parseFloat(e.target.value) || 1\<close>), so \<open>w\<close> is finite and at least the double
  \<open>0.1\<close>.

  \<open>p.temperature / w\<close> is the rounded quotient, an infinity when it is out of range;
  \<open>Math.floor\<close> keeps an infinity; the product with \<open>w\<close> is rounded again, and an
  infinity times the positive \<open>w\<close> is that infinity.
\<close>

definition bin_of :: "real \<Rightarrow> real option \<Rightarrow> number" where
  "bin_of w v =
     (case round_double (toNumber v / w) of
        Fin q \<Rightarrow> round_double (of_int \<lfloor>q\<rfloor> * w)
      | NegInf \<Rightarrow> NegInf
      | PosInf \<Rightarrow> PosInf)"

text \<open>
  The table of a histogram is keyed by the bucket: printing is injective on numbers, and
  \<open>Number(t)\<close> reads a printed key back exactly. The keys that print as array indices
  are the integers from \<open>0\<close> to \<open>2^32 - 2\<close>.
\<close>

definition number_index :: "number \<Rightarrow> nat option" where
  "number_index k =
     (case k of
        Fin x \<Rightarrow> (if of_int \<lfloor>x\<rfloor> = x \<and> 0 \<le> x \<and> x < 4294967295 then Some (nat \<lfloor>x\<rfloor>) else None)
      | NegInf \<Rightarrow> None
      | PosInf \<Rightarrow> None)"

definition fill_bins :: "(Profile \<Rightarrow> real option) \<Rightarrow> real \<Rightarrow> Profile list \<Rightarrow> (number \<times> nat) list" where
  "fill_bins field w ps = foldl (\<lambda>bins p. incr (bin_of w (field p)) bins) [] ps"

definition histogram :: "(Profile \<Rightarrow> real option) \<Rightarrow> Profile list \<Rightarrow> real \<Rightarrow> (number \<times> nat) list" where
  "histogram field filteredProfiles binWidth =
     (let w = max double_tenth binWidth
      in sort_key fst (object_entries number_index (fill_bins field w filteredProfiles)))"

definition tempBins :: "Profile list \<Rightarrow> real \<Rightarrow> (number \<times> nat) list" where
  "tempBins filteredProfiles tempBinWidth = histogram temperature filteredProfiles tempBinWidth"

definition salBins :: "Profile list \<Rightarrow> real \<Rightarrow> (number \<times> nat) list" where
  "salBins filteredProfiles salBinWidth = histogram salinity filteredProfiles salBinWidth"

section \<open>Depth distribution (\<open>depthDistribution\<close>, \<open>depthData\<close>)\<close>

text \<open>
  \<^verbatim>\<open>
  for (const profile of filteredProfiles) {
    const depth = profile.depth
    acc[depth] = (acc[depth] || 0) + 1
  }
  \<close>
  The key of \<open>acc[depth]\<close> is the printed depth. \<open>Number::toString\<close> is the parameter
  \<open>str\<close>.
\<close>

definition depthDistribution :: "(real \<Rightarrow> string) \<Rightarrow> Profile list \<Rightarrow> (string \<times> nat) list" where
  "depthDistribution str filteredProfiles =
     foldl (\<lambda>acc profile. incr (str (depth profile)) acc) [] filteredProfiles"

text \<open>
  \<open>parseInt(string)\<close> with no radix: leading white space is dropped, then an optional
  sign; a following \<open>0x\<close> or \<open>0X\<close> selects radix 16, otherwise the radix is 10; the
  digits of that radix up to the first other character are read, and the result is the
  double nearest to the integer they denote. With no digit to read the result is \<open>NaN\<close>,
  here \<open>None\<close>.
\<close>

definition is_space :: "char \<Rightarrow> bool" where
  "is_space c \<longleftrightarrow> of_char c \<in> {9, 10, 11, 12, 13, 32, 160 :: nat}"

definition digit_value :: "char \<Rightarrow> nat option" where
  "digit_value c =
     (let n = of_char c :: nat
      in if 48 \<le> n \<and> n \<le> 57 then Some (n - 48)
         else if 97 \<le> n \<and> n \<le> 122 then Some (n - 87)
         else if 65 \<le> n \<and> n \<le> 90 then Some (n - 55)
         else None)"

definition radix_digit :: "nat \<Rightarrow> char \<Rightarrow> bool" where
  "radix_digit R c \<longleftrightarrow> (case digit_value c of None \<Rightarrow> False | Some d \<Rightarrow> d < R)"

definition parseInt :: "string \<Rightarrow> number option" where
  "parseInt inputString =
     (let S = dropWhile is_space inputString;
          sign = (if S \<noteq> [] \<and> hd S = CHR ''-'' then - 1 else 1 :: int);
          S = (if S \<noteq> [] \<and> (hd S = CHR ''+'' \<or> hd S = CHR ''-'') then tl S else S);
          hex = (take 2 S = ''0x'' \<or> take 2 S = ''0X'');
          R = (if hex then 16 else 10);
          S = (if hex then drop 2 S else S);
          Z = takeWhile (radix_digit R) S
      in if Z = [] then None
         else Some (round_double
                (of_int (sign * int (foldl (\<lambda>n c. n * R + the (digit_value c)) 0 Z)))))"

text \<open>
  \<^verbatim>\<open>
  Object.entries(depthDistribution).map(([depth, count]) => ({ depth: parseInt(depth), count }))
    .sort((a, b) => a.depth - b.depth)
  \<close>
  An entry is \<open>(depth, count)\<close>, the depth \<open>None\<close> when it is \<open>NaN\<close>. With a \<open>NaN\<close>
  among two or more entries the comparison function is not consistent and the order that
  \<open>sort\<close> leaves is up to the implementation: the result is \<open>None\<close> then.
\<close>

definition depthData :: "(real \<Rightarrow> string) \<Rightarrow> Profile list \<Rightarrow> (number option \<times> nat) list option" where
  "depthData str filteredProfiles =
     (let entries = map (\<lambda>(depth, count). (parseInt depth, count))
                        (object_entries array_index (depthDistribution str filteredProfiles))
      in if list_all (\<lambda>e. fst e \<noteq> None) entries then Some (sort_key (\<lambda>e. the (fst e)) entries)
         else if length entries \<le> 1 then Some entries
         else None)"

section \<open>Monthly series (\<open>timeSeriesTemp\<close>, \<open>timeSeriesSal\<close>)\<close>

subsection \<open>The month key\<close>

text \<open>
  \<^verbatim>\<open>const ym = `${p.year}-${String(p.month).padStart(2, '0')}`\<close>
  An integer prints as its decimal digits, with a leading \<open>-\<close> when negative.
\<close>

definition digit_char :: "nat \<Rightarrow> char" where
  "digit_char d = ''0123456789'' ! d"

fun digits :: "nat \<Rightarrow> string" where
  "digits n = (if n < 10 then [digit_char n] else digits (n div 10) @ [digit_char (n mod 10)])"

declare digits.simps [simp del]

definition str_int :: "int \<Rightarrow> string" where
  "str_int n = (if n < 0 then ''-'' @ digits (nat (- n)) else digits (nat n))"

definition padStart2 :: "string \<Rightarrow> string" where
  "padStart2 s = (if length s < 2 then replicate (2 - length s) CHR ''0'' @ s else s)"

definition ym :: "Profile \<Rightarrow> string" where
  "ym p = str_int (year p) @ ''-'' @ padStart2 (str_int (month p))"

subsection \<open>Grouping, averaging, sorting\<close>

text \<open>
  \<^verbatim>\<open>
  if (!groups[ym]) groups[ym] = { sum: 0, n: 0 }
  groups[ym].sum += p.temperature
  groups[ym].n += 1
  \<close>
  \<open>groups\<close> is an object keyed by the month key; a month key contains \<open>-\<close>, so it is
  never an array index and \<open>Object.entries\<close> lists the groups in insertion order.
\<close>

fun add_to_group :: "string \<Rightarrow> real \<Rightarrow> (string \<times> real \<times> nat) list \<Rightarrow> (string \<times> real \<times> nat) list" where
  "add_to_group k v [] = [(k, (0 + v, 0 + 1))]"
| "add_to_group k v ((k', (s, n)) # gs) =
     (if k = k' then (k', (s + v, n + 1)) # gs else (k', (s, n)) # add_to_group k v gs)"

definition groups_of :: "(Profile \<Rightarrow> real option) \<Rightarrow> Profile list \<Rightarrow> (string \<times> real \<times> nat) list" where
  "groups_of field ps = foldl (\<lambda>groups p. add_to_group (ym p) (toNumber (field p)) groups) [] ps"

text \<open>
  \<^verbatim>\<open>
  const series = Object.entries(groups)
    .map(([ym, v]) => ({ ym, avg: v.sum / v.n }))
    .sort((a, b) => a.ym.localeCompare(b.ym))
  \<close>
  On strings of digits and \<open>-\<close>, \<open>localeCompare\<close> is the lexicographic order in which
  \<open>-\<close> comes before every digit and the digits are in numeric order: the order of
  \<^typ>\<open>string\<close> by character code.
\<close>

definition monthly :: "(Profile \<Rightarrow> real option) \<Rightarrow> Profile list \<Rightarrow> (string \<times> real) list" where
  "monthly field ps =
     sort_key fst (map (\<lambda>(ym, (s, n)). (ym, s / of_nat n)) (groups_of field ps))"

subsection \<open>Centred moving average\<close>

text \<open>\<open>Array.prototype.slice(start, end)\<close>: a negative index counts from the end.\<close>

definition js_slice :: "'a list \<Rightarrow> int \<Rightarrow> int \<Rightarrow> 'a list" where
  "js_slice xs start stop =
     (let len = int (length xs);
          k = (if start < 0 then max (len + start) 0 else min start len);
          final = (if stop < 0 then max (len + stop) 0 else min stop len)
      in take (nat (final - k)) (drop (nat k) xs))"

text \<open>
  \<^verbatim>\<open>
  const w = Math.max(1, Math.floor(maWindow))
  const half = Math.floor((w - 1) / 2)
  const out = series.map((row, i) => {
    const start = Math.max(0, i - half)
    const end = Math.min(series.length - 1, i + half)
    const slice = series.slice(start, end + 1)
    const ma = slice.reduce((acc, r) => acc + r.avg, 0) / slice.length
    return { ...row, ma }
  })
  \<close>
  A point of the output is \<open>(ym, avg, ma)\<close>.
\<close>

definition window_w :: "real \<Rightarrow> int" where
  "window_w maWindow = max 1 \<lfloor>maWindow\<rfloor>"

definition window_half :: "real \<Rightarrow> int" where
  "window_half maWindow = \<lfloor>(of_int (window_w maWindow) - 1) / (2 :: real)\<rfloor>"

definition window_start :: "int \<Rightarrow> nat \<Rightarrow> int" where
  "window_start half i = max 0 (int i - half)"

definition window_end :: "int \<Rightarrow> nat \<Rightarrow> nat \<Rightarrow> int" where
  "window_end half len i = min (int len - 1) (int i + half)"

definition window_slice :: "int \<Rightarrow> 'a list \<Rightarrow> nat \<Rightarrow> 'a list" where
  "window_slice half series i =
     js_slice series (window_start half i) (window_end half (length series) i + 1)"

definition movingAverage :: "real \<Rightarrow> (string \<times> real) list \<Rightarrow> (string \<times> real \<times> real) list" where
  "movingAverage maWindow series =
     (let half = window_half maWindow
      in map (\<lambda>i. let row = series ! i;
                      slice = window_slice half series i;
                      ma = foldl (\<lambda>acc r. acc + snd r) 0 slice / of_nat (length slice)
                  in (fst row, snd row, ma))
             [0 ..< length series])"

definition timeSeriesTemp :: "Profile list \<Rightarrow> real \<Rightarrow> (string \<times> real \<times> real) list" where
  "timeSeriesTemp filteredProfiles maWindow = movingAverage maWindow (monthly temperature filteredProfiles)"

definition timeSeriesSal :: "Profile list \<Rightarrow> real \<Rightarrow> (string \<times> real \<times> real) list" where
  "timeSeriesSal filteredProfiles maWindow = movingAverage maWindow (monthly salinity filteredProfiles)"

subsection \<open>The moving average in the words of the specification\<close>

text \<open>
  Not from the source: the specification's description of the smoother, to compare the code
  with. For the series index \<open>i\<close> the window is the inclusive slice of indices
  \<open>[max(0, i - half), min(n - 1, i + half)]\<close>, and the smoothed value is the mean of the
  averages at these indices.
\<close>

definition spec_window :: "int \<Rightarrow> nat \<Rightarrow> nat \<Rightarrow> nat list" where
  "spec_window half n i = [nat (max 0 (int i - half)) ..< nat (min (int n - 1) (int i + half)) + 1]"

definition spec_smoothed :: "int \<Rightarrow> real list \<Rightarrow> nat \<Rightarrow> real" where
  "spec_smoothed half averages i =
     (let window = spec_window half (length averages) i
      in sum_list (map (\<lambda>j. averages ! j) window) / of_nat (length window))"

section \<open>Map view: cached fetch (\<open>fetchProfiles\<close> of the map component)\<close>

subsection \<open>Printing numbers\<close>

text \<open>
  \<open>Number::toString\<close> (the shortest decimal that reads back as the same double) is not
  modelled: the functions below take it as the parameter \<open>str\<close>. The concrete examples
  pass \<open>print_integer\<close>, which prints an integer-valued number below \<open>10^21\<close> as
  JavaScript does, and use such numbers only.
\<close>

definition print_integer :: "real \<Rightarrow> string" where
  "print_integer x = str_int \<lfloor>x\<rfloor>"

text \<open>
  \<open>print_halves\<close> prints, as JavaScript does, also a number below \<open>2^52\<close> that is an
  integer plus one half: the digits of the integer part, then \<open>.5\<close>.
\<close>

definition print_halves :: "real \<Rightarrow> string" where
  "print_halves x =
     (if of_int \<lfloor>x\<rfloor> = x then str_int \<lfloor>x\<rfloor>
      else (if x < 0 then ''-'' else []) @ digits (nat \<lfloor>\<bar>x\<bar>\<rfloor>) @ ''.5'')"

text \<open>
  \<open>Number.prototype.toFixed(3)\<close>: the sign, then, below \<open>10^21\<close>, the digits of the
  integer \<open>n\<close> nearest to \<open>1000 x\<close> (the larger one on a tie), padded with zeros to four
  digits, with a point before the last three.
\<close>

definition toFixed3 :: "(real \<Rightarrow> string) \<Rightarrow> real \<Rightarrow> string" where
  "toFixed3 str v =
     (let s = (if v < 0 then ''-'' else []);
          x = (if v < 0 then - v else v);
          m = (if 10 ^ 21 \<le> x then str x
               else let n = nat \<lfloor>x * 1000 + 1 / 2\<rfloor>;
                        m = digits n;
                        m = (if length m \<le> 3 then replicate (3 + 1 - length m) CHR ''0'' @ m else m)
                    in take (length m - 3) m @ ''.'' @ drop (length m - 3) m)
      in s @ m)"

subsection \<open>Bounds, filter, cache key\<close>

record bounds =
  south :: real
  west :: real
  north :: real
  east :: real

text \<open>
  The filter state of the map component. Its fields \<open>depth\<close> and \<open>temperature\<close> are
  named \<open>filterDepth\<close> and \<open>filterTemperature\<close> here; \<open>None\<close> is \<open>null\<close>.
  A variable holding the filter is named \<open>filters\<close>.
\<close>

record filter_state =
  filterDepth :: "real option"
  filterTemperature :: "real option"
  salinityMin :: "real option"
  salinityMax :: "real option"
  monthMin :: "real option"
  monthMax :: "real option"
  yearMin :: "real option"
  yearMax :: "real option"

text \<open>\<open>filter.x ?? 'any'\<close>, printed by \<open>join\<close>.\<close>

fun or_any :: "(real \<Rightarrow> string) \<Rightarrow> real option \<Rightarrow> string" where
  "or_any str None = ''any''"
| "or_any str (Some v) = str v"

fun join :: "string \<Rightarrow> string list \<Rightarrow> string" where
  "join sep [] = []"
| "join sep [x] = x"
| "join sep (x # y # ys) = x @ sep @ join sep (y # ys)"

text \<open>
  \<^verbatim>\<open>
  const cacheKey = [
    b.getSouth().toFixed(3), b.getWest().toFixed(3), b.getNorth().toFixed(3), b.getEast().toFixed(3),
    filter.temperature ?? 'any',
    filter.salinityMin ?? 'any', filter.salinityMax ?? 'any',
    filter.monthMin ?? 'any', filter.monthMax ?? 'any',
    filter.yearMin ?? 'any', filter.yearMax ?? 'any',
  ].join(',')
  \<close>
\<close>

definition cacheKey :: "(real \<Rightarrow> string) \<Rightarrow> bounds \<Rightarrow> filter_state \<Rightarrow> string" where
  "cacheKey str b filters =
     join '','' [
       toFixed3 str (south b), toFixed3 str (west b), toFixed3 str (north b), toFixed3 str (east b),
       or_any str (filterTemperature filters),
       or_any str (salinityMin filters), or_any str (salinityMax filters),
       or_any str (monthMin filters), or_any str (monthMax filters),
       or_any str (yearMin filters), or_any str (yearMax filters)]"

subsection \<open>The request\<close>

text \<open>
  \<open>URLSearchParams\<close> is the list of its name/value pairs; \<open>set\<close> replaces the value of a
  name that is present and appends the pair otherwise.
\<close>

type_synonym search_params = "(string \<times> string) list"

fun params_set :: "string \<Rightarrow> string \<Rightarrow> search_params \<Rightarrow> search_params" where
  "params_set name v [] = [(name, v)]"
| "params_set name v ((name', v') # ps) =
     (if name = name' then (name', v) # filter (\<lambda>p. fst p \<noteq> name) ps
      else (name', v') # params_set name v ps)"

text \<open>\<open>if (filter.x != null) params.set(name, String(filter.x))\<close>\<close>

fun set_if_present :: "(real \<Rightarrow> string) \<Rightarrow> string \<Rightarrow> real option \<Rightarrow> search_params \<Rightarrow> search_params" where
  "set_if_present str name None params = params"
| "set_if_present str name (Some v) params = params_set name (str v) params"

text \<open>
  \<^verbatim>\<open>
  const south = Math.max(-90, Math.min(90, b.getSouth()))
  const north = Math.max(-90, Math.min(90, b.getNorth()))
  const west = Math.max(-180, Math.min(180, b.getWest()))
  const east = Math.max(-180, Math.min(180, b.getEast()))
  \<close>
\<close>

definition clamp_bounds :: "bounds \<Rightarrow> bounds" where
  "clamp_bounds b =
     \<lparr>south = max (- 90) (min 90 (south b)),
      west = max (- 180) (min 180 (west b)),
      north = max (- 90) (min 90 (north b)),
      east = max (- 180) (min 180 (east b))\<rparr>"

definition request_params :: "(real \<Rightarrow> string) \<Rightarrow> bounds \<Rightarrow> filter_state \<Rightarrow> search_params" where
  "request_params str b filters =
     (let params = params_set ''limit'' ''500'' [];
          c = clamp_bounds b;
          params = params_set ''min_lat'' (str (south c)) params;
          params = params_set ''max_lat'' (str (north c)) params;
          params = params_set ''min_lon'' (str (west c)) params;
          params = params_set ''max_lon'' (str (east c)) params;
          params = (case filterTemperature filters of
                      None \<Rightarrow> params
                    | Some t \<Rightarrow> params_set ''temp_max'' (str (t + 1 / 2))
                                 (params_set ''temp_min'' (str (t - 1 / 2)) params));
          params = set_if_present str ''salinity_min'' (salinityMin filters) params;
          params = set_if_present str ''salinity_max'' (salinityMax filters) params;
          params = set_if_present str ''month_min'' (monthMin filters) params;
          params = set_if_present str ''month_max'' (monthMax filters) params;
          params = set_if_present str ''year_min'' (yearMin filters) params;
          params = set_if_present str ''year_max'' (yearMax filters) params
      in params)"

definition fallback_params :: search_params where
  "fallback_params = [(''limit'', ''200'')]"

text \<open>
  The network is the parameter \<open>fetch\<close> of a call: it maps the parameters of a request
  to \<open>/data/profiles\<close> to what comes back. \<open>Rejected\<close> stands for everything that lands
  in the \<open>catch\<close> block (\<open>fetch\<close> rejects, or \<open>res.json()\<close> throws); \<open>Json r\<close> is a
  parsed body whose \<open>results\<close> member is \<open>r\<close>, \<open>None\<close> when the body has none.
\<close>

datatype response = Rejected | Json "Profile list option"

text \<open>\<open>json.results || []\<close>\<close>

fun results_or_empty :: "Profile list option \<Rightarrow> Profile list" where
  "results_or_empty None = []"
| "results_or_empty (Some r) = r"

subsection \<open>State and \<open>fetchProfiles\<close>\<close>

text \<open>
  \<open>cacheRef.current\<close> is a \<open>Map<string, any[]>\<close>; \<open>profiles\<close> and \<open>loading\<close> are
  component state. \<open>fetched\<close> is not in the source: it logs the parameters of every request
  issued, so that requests can be counted.
\<close>

record map_view =
  cache :: "string \<rightharpoonup> Profile list"
  profiles :: "Profile list"
  loading :: bool
  fetched :: "search_params list"

definition initial_view :: map_view where
  "initial_view = \<lparr>cache = Map.empty, profiles = [], loading = False, fetched = []\<rparr>"

text \<open>
  One call of \<open>fetchProfiles\<close>, run to completion. \<open>mapBounds\<close> is \<open>None\<close> when
  \<open>leafletRef.current\<close> is not set (the function returns at once). The calls are
  sequential: a call that starts while another awaits its response is not modelled.
  \<^verbatim>\<open>
  if (cacheRef.current.has(cacheKey)) {
    setProfiles(cacheRef.current.get(cacheKey)!); setLoading(false); return
  }
  try {
    const res = await fetch(url); const json = await res.json()
    const profilesData = json.results || []
    setProfiles(profilesData)
    cacheRef.current.set(cacheKey, profilesData)
    if (!profilesData || profilesData.length === 0) {
      try {
        const fallbackRes = await fetch(fallbackUrl); const fallbackJson = await fallbackRes.json()
        const fallbackData = fallbackJson.results || []
        setProfiles(fallbackData)
        cacheRef.current.set('fallback', fallbackData)
      } catch (fallbackError) { }
    }
  } catch (e) {
    const fallbackData = cacheRef.current.get('fallback')
    if (fallbackData) { setProfiles(fallbackData) }
  } finally { setLoading(false) }
  \<close>
\<close>

definition fetchProfiles ::
    "(real \<Rightarrow> string) \<Rightarrow> (search_params \<Rightarrow> response) \<Rightarrow> bounds option \<Rightarrow> filter_state \<Rightarrow> map_view \<Rightarrow> map_view" where
  "fetchProfiles str fetch mapBounds filters s =
     (case mapBounds of
        None \<Rightarrow> s
      | Some b \<Rightarrow>
          let key = cacheKey str b filters in
          (case cache s key of
             Some stored \<Rightarrow> s\<lparr>profiles := stored, loading := False\<rparr>
           | None \<Rightarrow>
               let params = request_params str b filters;
                   s = s\<lparr>loading := True, fetched := fetched s @ [params]\<rparr>
               in (case fetch params of
                     Rejected \<Rightarrow>
                       (case cache s ''fallback'' of
                          Some fallbackData \<Rightarrow> s\<lparr>profiles := fallbackData, loading := False\<rparr>
                        | None \<Rightarrow> s\<lparr>loading := False\<rparr>)
                   | Json r \<Rightarrow>
                       let profilesData = results_or_empty r;
                           s = s\<lparr>profiles := profilesData,
                                 cache := (cache s)(key \<mapsto> profilesData)\<rparr>
                       in if length profilesData = 0 then
                            (let s = s\<lparr>fetched := fetched s @ [fallback_params]\<rparr>
                             in case fetch fallback_params of
                                  Rejected \<Rightarrow> s\<lparr>loading := False\<rparr>
                                | Json fr \<Rightarrow>
                                    let fallbackData = results_or_empty fr
                                    in s\<lparr>profiles := fallbackData,
                                         cache := (cache s)(''fallback'' \<mapsto> fallbackData),
                                         loading := False\<rparr>)
                          else s\<lparr>loading := False\<rparr>)))"

text \<open>A call is the network of its moment together with the map bounds and the filter.\<close>

type_synonym call = "(search_params \<Rightarrow> response) \<times> bounds option \<times> filter_state"

definition run_calls :: "(real \<Rightarrow> string) \<Rightarrow> call list \<Rightarrow> map_view \<Rightarrow> map_view" where
  "run_calls str calls s =
     foldl (\<lambda>s (fetch, mapBounds, filters). fetchProfiles str fetch mapBounds filters s) s calls"

section \<open>Example inputs\<close>

definition sample :: Profile where
  "sample = \<lparr>pid = 1, latitude = 0, longitude = 0, depth = 10, temperature = Some 10,
              salinity = Some 35, month = 1, year = 2024\<rparr>"

definition no_filter :: filter_state where
  "no_filter = \<lparr>filterDepth = None, filterTemperature = None, salinityMin = None,
                 salinityMax = None, monthMin = None, monthMax = None, yearMin = None,
                 yearMax = None\<rparr>"

definition four_months :: "(string \<times> real) list" where
  "four_months = [(''2024-01'', 5), (''2024-02'', 7), (''2024-03'', 9), (''2024-04'', 11)]"

definition january :: Profile where
  "january = sample\<lparr>salinity := Some 10\<rparr>"

definition february :: Profile where
  "february = january\<lparr>month := 2\<rparr>"

text \<open>Map views and networks for the examples of the cached fetch.\<close>

definition view_a :: bounds where
  "view_a = \<lparr>south = - 10, west = - 250, north = 10, east = 20\<rparr>"

definition view_b :: bounds where
  "view_b = \<lparr>south = - 10, west = - 200, north = 10, east = 20\<rparr>"

definition view_c :: bounds where
  "view_c = \<lparr>south = 0, west = 0, north = 5, east = 5\<rparr>"

definition view_d :: bounds where
  "view_d = \<lparr>south = 0, west = - 250, north = 5, east = 5\<rparr>"

definition view_e :: bounds where
  "view_e = \<lparr>south = 0, west = - 250 - 1 / 8192, north = 5, east = 5\<rparr>"

definition stale_view :: map_view where
  "stale_view = \<lparr>cache = [''fallback'' \<mapsto> [january]], profiles = [february], loading = False,
                  fetched = []\<rparr>"

definition offline :: "search_params \<Rightarrow> response" where
  "offline params = Rejected"

definition serving :: "Profile list \<Rightarrow> search_params \<Rightarrow> response" where
  "serving found params = Json (Some found)"

definition empty_in_bounds :: "Profile list \<Rightarrow> search_params \<Rightarrow> response" where
  "empty_in_bounds unbounded params =
     (if params = fallback_params then Json (Some unbounded) else Json (Some []))"

section \<open>Double arithmetic: the rounded value\<close>

text \<open>
  \<open>ilog2 x\<close> is the binary exponent of a positive \<open>x\<close>. A finite \<open>round_double x\<close> is
  a multiple \<open>m * 2^e\<close> of the spacing \<open>2^e\<close> of the doubles at \<open>x\<close>, with
  \<open>|m| \<le> 2^53\<close>, and at most half a spacing away from \<open>x\<close>.
\<close>

lemma bit_length_bounds:
  "0 < n \<Longrightarrow> 2 ^ (bit_length n - 1) \<le> n \<and> n < 2 ^ bit_length n"
proof (induction n rule: bit_length.induct)
  case (1 n)
  show ?case
  proof (cases "n div 2 = 0")
    case True
    with 1(2) have "n = 1" by (simp add: div_eq_0_iff)
    then show ?thesis by (simp add: bit_length.simps)
  next
    case False
    define m where "m = n div 2"
    define k where "k = bit_length m"
    from False have m: "0 < m" by (simp add: m_def)
    from 1(2) have n0: "n \<noteq> 0" by simp
    from 1(1)[OF n0] m have IH: "2 ^ (k - 1) \<le> m \<and> m < 2 ^ k"
      by (simp add: m_def k_def)
    have k1: "1 \<le> k" using m by (simp add: k_def bit_length.simps[of m])
    have bl: "bit_length n = k + 1" using n0 by (simp add: bit_length.simps[of n] m_def k_def)
    have n2: "2 * m \<le> n" "n < 2 * m + 2" by (simp_all add: m_def)
    from k1 have pk: "(2::nat) ^ k = 2 * 2 ^ (k - 1)" by (cases k) simp_all
    from IH have "m + 1 \<le> 2 ^ k" by simp
    then have "2 * m + 2 \<le> 2 * 2 ^ k" by simp
    with n2 have up: "n < 2 ^ (k + 1)" by simp
    from IH pk n2 have lo: "2 ^ k \<le> n" by simp
    from up lo show ?thesis by (simp add: bl)
  qed
qed

lemma pow2_pos: "0 < pow2 e"
  by (simp add: pow2_def)

lemma pow2_Suc: "pow2 (e + 1) = 2 * pow2 e"
proof (cases "0 \<le> e")
  case True
  then show ?thesis by (simp add: pow2_def nat_add_distrib)
next
  case False
  then have "nat (- e) = Suc (nat (- (e + 1)))" by simp
  then show ?thesis using False by (simp add: pow2_def del: nat_diff_distrib)
qed

lemma round_half_even_near: "\<bar>of_int (round_half_even q) - q\<bar> \<le> 1 / 2"
  unfolding round_half_even_def Let_def
  by (auto simp: abs_le_iff)

lemma ilog2_bounds:
  assumes "0 < x"
  shows "pow2 (ilog2 x) \<le> x \<and> x < 2 * pow2 (ilog2 x)"
proof (cases "1 \<le> x")
  case True
  define n where "n = nat \<lfloor>x\<rfloor>"
  define k where "k = bit_length n"
  from True have f1: "1 \<le> \<lfloor>x\<rfloor>" by simp
  then have n: "0 < n" by (simp add: n_def)
  from f1 have rn: "real n = of_int \<lfloor>x\<rfloor>" by (simp add: n_def)
  have lo: "real n \<le> x" and hi: "x < real n + 1" unfolding rn by linarith+
  from bit_length_bounds[OF n] have b: "2 ^ (k - 1) \<le> n" "n < 2 ^ k" by (simp_all add: k_def)
  have k1: "1 \<le> k" using n by (simp add: k_def bit_length.simps[of n])
  then have pk: "(2::real) ^ k = 2 * 2 ^ (k - 1)" by (cases k) simp_all
  have il: "ilog2 x = int k - 1" using True by (simp add: ilog2_def n_def k_def)
  have p: "pow2 (ilog2 x) = 2 ^ (k - 1)" using k1 by (simp add: il pow2_def nat_diff_distrib)
  from b(1) have "(2::real) ^ (k - 1) \<le> real n" by (metis of_nat_le_iff of_nat_numeral of_nat_power)
  with lo have g1: "2 ^ (k - 1) \<le> x" by linarith
  from b(2) have "n + 1 \<le> 2 ^ k" by simp
  then have "real n + 1 \<le> 2 ^ k" by (metis of_nat_le_iff of_nat_numeral of_nat_power of_nat_Suc Suc_eq_plus1 add.commute)
  with hi have g2: "x < 2 ^ k" by linarith
  from g2 have "x < 2 * 2 ^ (k - 1)" by (simp only: pk)
  with g1 show ?thesis by (simp only: p)
next
  case False
  define y where "y = 1 / x"
  define m where "m = nat (\<lceil>y\<rceil> - 1)"
  define k where "k = bit_length m"
  from False assms have y1: "1 < y" by (simp add: y_def)
  then have c2: "2 \<le> \<lceil>y\<rceil>" by linarith
  then have m: "0 < m" by (simp add: m_def)
  from c2 have rm: "real m = of_int \<lceil>y\<rceil> - 1" by (simp add: m_def)
  have lo: "real m < y" and hi: "y \<le> real m + 1" unfolding rm by linarith+
  from bit_length_bounds[OF m] have b: "2 ^ (k - 1) \<le> m" "m < 2 ^ k" by (simp_all add: k_def)
  have k1: "1 \<le> k" using m by (simp add: k_def bit_length.simps[of m])
  then have pk: "(2::real) ^ k = 2 * 2 ^ (k - 1)" by (cases k) simp_all
  have il: "ilog2 x = - int k" using False by (simp add: ilog2_def m_def k_def y_def)
  have p: "pow2 (ilog2 x) = 1 / 2 ^ k" using k1 by (simp add: il pow2_def)
  from b(1) have "(2::real) ^ (k - 1) \<le> real m" by (metis of_nat_le_iff of_nat_numeral of_nat_power)
  with lo have "2 ^ (k - 1) < y" by linarith
  then have g1: "2 ^ k < 2 * y" by (simp add: pk)
  from b(2) have "m + 1 \<le> 2 ^ k" by simp
  then have "real m + 1 \<le> 2 ^ k" by (metis of_nat_le_iff of_nat_numeral of_nat_power of_nat_Suc Suc_eq_plus1 add.commute)
  with hi have g2: "y \<le> 2 ^ k" by linarith
  have xy: "x = 1 / y" by (simp add: y_def)
  have y0: "0 < y" using y1 by linarith
  from g2 y0 have "1 / 2 ^ k \<le> 1 / y" by (simp add: frac_le)
  moreover from g1 y0 have "1 / y < 2 * (1 / 2 ^ k)" by (simp add: field_simps)
  ultimately show ?thesis by (simp only: p xy[symmetric])
qed

lemma pow2_powr: "pow2 e = 2 powr real_of_int e"
proof (cases "0 \<le> e")
  case True
  then have "real_of_int e = real (nat e)" by simp
  then have "2 powr real_of_int e = 2 ^ nat e" by (simp only: powr_realpow zero_less_numeral)
  with True show ?thesis by (simp add: pow2_def)
next
  case False
  then have "real_of_int e = - real (nat (- e))" by simp
  then have "2 powr real_of_int e = 1 / 2 ^ nat (- e)"
    by (simp only: powr_minus_divide powr_realpow zero_less_numeral)
  with False show ?thesis by (simp add: pow2_def)
qed

lemma round_double_near:
  assumes "round_double x = Fin y"
  shows "\<exists>m :: int. y = of_int m * pow2 (max (ilog2 \<bar>x\<bar>) (- 1022) - 52)
           \<and> \<bar>m\<bar> \<le> 2 ^ 53
           \<and> \<bar>y - x\<bar> \<le> pow2 (max (ilog2 \<bar>x\<bar>) (- 1022) - 52) / 2"
proof (cases "x = 0")
  case True
  with assms have "y = 0" by (simp add: round_double_def)
  with True pow2_pos[of "max (ilog2 \<bar>x\<bar>) (- 1022) - 52"] show ?thesis
    by (intro exI[of _ 0]) simp
next
  case False
  define k where "k = ilog2 \<bar>x\<bar>"
  define e where "e = max k (- 1022) - 52"
  define q where "q = x / pow2 e"
  define m where "m = round_half_even q"
  have pe: "0 < pow2 e" by (rule pow2_pos)
  from assms False have y: "y = of_int m * pow2 e"
    by (simp add: round_double_def Let_def k_def e_def q_def m_def split: if_splits)
  have near: "\<bar>of_int m - q\<bar> \<le> 1 / 2" unfolding m_def by (rule round_half_even_near)
  have x: "x = q * pow2 e" using pe by (simp add: q_def)
  have "y - x = (of_int m - q) * pow2 e" by (simp add: y x algebra_simps)
  then have "\<bar>y - x\<bar> = \<bar>of_int m - q\<bar> * pow2 e" using pe by (simp add: abs_mult)
  also have "\<dots> \<le> 1 / 2 * pow2 e" using near pe by (intro mult_right_mono) simp_all
  finally have d: "\<bar>y - x\<bar> \<le> pow2 e / 2" by simp
  from False have "0 < \<bar>x\<bar>" by simp
  from ilog2_bounds[OF this] have ub: "\<bar>x\<bar> < 2 * pow2 k" by (simp add: k_def)
  have "k - e \<le> 52" by (simp add: e_def)
  then have "real_of_int k - real_of_int e \<le> 52" by linarith
  then have "(2::real) powr (real_of_int k - real_of_int e) \<le> 2 powr 52"
    by (intro powr_mono) simp_all
  then have "pow2 k / pow2 e \<le> 2 ^ 52"
    by (simp add: pow2_powr powr_diff)
  with pe have "pow2 k \<le> 2 ^ 52 * pow2 e" by (simp add: pos_divide_le_eq)
  with ub have "\<bar>x\<bar> < 2 ^ 53 * pow2 e" by simp
  with pe have "\<bar>q\<bar> < 2 ^ 53" by (simp add: q_def pos_divide_less_eq)
  with near have "\<bar>real_of_int m\<bar> < 2 ^ 53 + 1" by linarith
  then have "real_of_int \<bar>m\<bar> < real_of_int (2 ^ 53 + 1)" by simp
  then have "\<bar>m\<bar> < 2 ^ 53 + 1" by (simp only: of_int_less_iff)
  then have mb: "\<bar>m\<bar> \<le> 2 ^ 53" by simp
  from y mb d show ?thesis unfolding e_def k_def by blast
qed

section \<open>Counting tables: basic facts\<close>

lemma map_of_incr:
  "map_of (incr k kvs) k' =
     (if k' = k then Some ((case map_of kvs k of None \<Rightarrow> 0 | Some c \<Rightarrow> c) + 1) else map_of kvs k')"
  by (induction kvs) auto

lemma keys_incr: "set (map fst (incr k kvs)) = insert k (set (map fst kvs))"
proof -
  have "dom (map_of (incr k kvs)) = insert k (dom (map_of kvs))"
    by (auto simp: map_of_incr dom_def split: if_splits)
  then show ?thesis by (simp add: dom_map_of_conv_image_fst)
qed

lemma distinct_incr: "distinct (map fst kvs) \<Longrightarrow> distinct (map fst (incr k kvs))"
proof (induction kvs)
  case Nil
  then show ?case by simp
next
  case (Cons kv kvs)
  obtain k' c where kv: "kv = (k', c)" by (cases kv)
  from Cons have d: "distinct (map fst (incr k kvs))" and n: "k' \<notin> set (map fst kvs)"
    by (simp_all add: kv)
  show ?case
  proof (cases "k = k'")
    case True
    with Cons.prems show ?thesis by (simp add: kv)
  next
    case False
    with d n show ?thesis unfolding kv by (simp only: incr.simps if_False list.map fst_conv distinct.simps keys_incr, simp)
  qed
qed

lemma sum_incr: "sum_list (map snd (incr k kvs)) = sum_list (map snd kvs) + 1"
  by (induction kvs) auto

lemma distinct_tally:
  "distinct (map fst acc) \<Longrightarrow> distinct (map fst (foldl (\<lambda>a p. incr (f p) a) acc ps))"
  by (induction ps arbitrary: acc) (simp_all add: distinct_incr)

lemma sum_tally:
  "sum_list (map snd (foldl (\<lambda>a p. incr (f p) a) acc ps)) = sum_list (map snd acc) + length ps"
  by (induction ps arbitrary: acc) (simp_all add: sum_incr)

lemma map_of_tally:
  "map_of (foldl (\<lambda>a p. incr (f p) a) acc ps) k =
     (if length (filter (\<lambda>p. f p = k) ps) = 0 then map_of acc k
      else Some ((case map_of acc k of None \<Rightarrow> 0 | Some c \<Rightarrow> c) + length (filter (\<lambda>p. f p = k) ps)))"
proof (induction ps arbitrary: acc)
  case Nil
  then show ?case by simp
next
  case (Cons p ps)
  show ?case
    by (simp only: foldl_Cons Cons.IH map_of_incr) (auto split: option.splits)
qed

lemma tally_member:
  "(k, c) \<in> set (foldl (\<lambda>a p. incr (f p) a) [] ps) \<longleftrightarrow>
     c = length (filter (\<lambda>p. f p = k) ps) \<and> 0 < c"
proof -
  have "distinct (map fst (foldl (\<lambda>a p. incr (f p) a) [] ps))"
    by (rule distinct_tally) simp
  then have "(k, c) \<in> set (foldl (\<lambda>a p. incr (f p) a) [] ps) \<longleftrightarrow>
     map_of (foldl (\<lambda>a p. incr (f p) a) [] ps) k = Some c"
    by simp
  then show ?thesis
    by (auto simp: map_of_tally)
qed

lemma mset_object_entries: "mset (object_entries index kvs) = mset kvs"
  by (simp add: object_entries_def)

lemma set_object_entries: "set (object_entries index kvs) = set kvs"
  by (auto simp: object_entries_def)


lemma sum_snd_mset:
  "mset xs = mset ys \<Longrightarrow> sum_list (map snd xs) = sum_list (map snd ys)"
  for xs :: "('a \<times> nat) list"
  by (metis mset_map sum_mset_sum_list)


section \<open>Histograms: what the buckets hold\<close>

lemma histogram_sum: "sum_list (map snd (histogram field ps width)) = length ps"
proof -
  have "mset (histogram field ps width) = mset (fill_bins field (max double_tenth width) ps)"
    by (simp add: histogram_def mset_object_entries)
  then have "sum_list (map snd (histogram field ps width))
      = sum_list (map snd (fill_bins field (max double_tenth width) ps))"
    by (rule sum_snd_mset)
  then show ?thesis by (simp add: fill_bins_def sum_tally)
qed

lemma histogram_member:
  "(b, c) \<in> set (histogram field ps width) \<longleftrightarrow>
     c = length (filter (\<lambda>p. bin_of (max double_tenth width) (field p) = b) ps) \<and> 0 < c"
  by (simp add: histogram_def set_object_entries fill_bins_def tally_member)



text \<open>
  The bucket where neither operation rounds: the \<open>floor(v / w) * w\<close> of exact arithmetic.
\<close>

lemma bin_of_exact:
  assumes "round_double (v / w) = Fin (v / w)"
    and "round_double (of_int \<lfloor>v / w\<rfloor> * w) = Fin (of_int \<lfloor>v / w\<rfloor> * w)"
  shows "bin_of w (Some v) = Fin (of_int \<lfloor>v / w\<rfloor> * w)"
  by (simp add: bin_of_def assms)

text \<open>
  The double operations at work: the double nearest to one tenth is the literal \<open>0.1\<close>;
  at width \<open>0.1\<close> the value \<open>0.5\<close> is in bucket \<open>0.5\<close> (the quotient rounds up to
  \<open>5\<close>), the double nearest to \<open>0.3\<close> is in the bucket of the double \<open>0.2\<close> (the
  quotient is just below \<open>3\<close>), and the double nearest to \<open>14.6\<close> is in a bucket just
  above itself, \<open>14.600000000000001\<close>.
\<close>

lemmas eval_double = round_double_def ilog2_def pow2_def round_half_even_def bit_length.simps
  Let_def double_tenth_def

lemma round_double_tenth: "round_double (1 / 10) = Fin double_tenth"
  by (simp add: eval_double)

lemma bin_of_half: "bin_of double_tenth (Some (1 / 2)) = Fin (1 / 2)"
  by (simp add: bin_of_def eval_double)

lemma bin_of_three_tenths:
  "round_double (3 / 10) = Fin (5404319552844595 / 18014398509481984)"
  "bin_of double_tenth (Some (5404319552844595 / 18014398509481984))
     = Fin (3602879701896397 / 18014398509481984)"
  "round_double (2 / 10) = Fin (3602879701896397 / 18014398509481984)"
  by (simp_all add: bin_of_def eval_double)

lemma bin_of_above_value:
  "round_double (146 / 10) = Fin (8219069319951155 / 562949953421312)"
  "bin_of double_tenth (Some (8219069319951155 / 562949953421312))
     = Fin (2054767329987789 / 140737488355328)"
  "(8219069319951155 :: real) / 562949953421312 < 2054767329987789 / 140737488355328"
  by (simp_all add: bin_of_def eval_double)



text \<open>
  C8 as stated (the sum of the counts is the number of records whose binned field is not
  null) fails on a single record whose temperature is null: it is binned, as the value
  \<open>0\<close>, so the counts sum to one while no record has a temperature.
\<close>

theorem bins_sum_non_null_counterexample:
  "sum_list (map snd (tempBins [sample\<lparr>temperature := None\<rparr>] 1))
     \<noteq> length (filter (\<lambda>p. temperature p \<noteq> None) [sample\<lparr>temperature := None\<rparr>])"
  by (simp add: tempBins_def histogram_sum)

text \<open>
  C8, amended. For every input record set and width, the sum of the counts over all bins
  returned by \<open>tempBins\<close> and by \<open>salBins\<close> equals the number of input records, a null
  field included.
\<close>

theorem bins_sum_all_records:
  "sum_list (map snd (tempBins ps width)) = length ps
   \<and> sum_list (map snd (salBins ps width)) = length ps"
  by (simp add: tempBins_def salBins_def histogram_sum)

section \<open>Depth distribution: a fractional depth\<close>

lemma print_halves_examples:
  "print_halves 10 = ''10''" "print_halves (21 / 2) = ''10.5''"
  by (simp_all add: print_halves_def str_int_def digits.simps digit_char_def)

lemma round_double_ten: "round_double 10 = Fin 10"
  by (simp add: eval_double)

lemma parseInt_examples:
  "parseInt ''10'' = Some (Fin 10)" "parseInt ''10.5'' = Some (Fin 10)"
  by (simp_all add: parseInt_def Let_def is_space_def radix_digit_def digit_value_def
      round_double_ten)

lemma array_index_examples:
  "array_index ''10'' = Some 10" "array_index ''10.5'' = None"
  by (simp_all add: array_index_def decimal_def less_eq_char_def)

text \<open>
  C9. The claim: each output entry's depth equals an exact depth value occurring in the
  input, and distinct input depth values yield distinct output entries. \<open>depthData\<close>
  reads the keys of the table back with \<open>parseInt\<close>, where the two histograms read theirs
  back with \<open>Number(t)\<close>. On a record of depth \<open>10.5\<close> the key \<open>"10.5"\<close> is read as
  \<open>10\<close>: the entry has a depth that no record has, and next to a record of depth \<open>10\<close>
  there are two entries of depth \<open>10\<close>.
\<close>

theorem depthData_fractional_depth:
  "depthData print_halves [sample\<lparr>depth := 21 / 2\<rparr>] = Some [(Some (Fin 10), 1)]
   \<and> depthData print_halves [sample\<lparr>depth := 21 / 2\<rparr>, sample]
       = Some [(Some (Fin 10), 1), (Some (Fin 10), 1)]
   \<and> map depth [sample\<lparr>depth := 21 / 2\<rparr>, sample] = [21 / 2, 10]"
  by (simp add: depthData_def depthDistribution_def object_entries_def sample_def
      print_halves_examples parseInt_examples array_index_examples)

section \<open>The moving-average window\<close>

lemma window_w_ge1: "1 \<le> window_w m"
  by (simp add: window_w_def)

lemma window_half_div: "window_half m = (window_w m - 1) div 2"
proof -
  have "\<lfloor>real_of_int (window_w m - 1) / real_of_int 2\<rfloor> = (window_w m - 1) div 2"
    by (rule floor_divide_of_int_eq)
  then show ?thesis by (simp add: window_half_def)
qed

lemma window_half_nonneg: "0 \<le> window_half m"
  using window_w_ge1[of m] by (simp add: window_half_div)


lemma window_half_zero_iff: "window_half m = 0 \<longleftrightarrow> window_w m \<le> 2"
  using window_w_ge1[of m] unfolding window_half_div by presburger

lemma js_slice_nat:
  assumes "a \<le> b" and "b \<le> length xs"
  shows "js_slice xs (int a) (int b) = take (b - a) (drop a xs)"
proof -
  have "min (int a) (int (length xs)) = int a" "min (int b) (int (length xs)) = int b"
    using assms by simp_all
  moreover have "nat (int b - int a) = b - a" by simp
  ultimately show ?thesis by (simp add: js_slice_def Let_def)
qed

lemma slice_map_nth:
  assumes "hi \<le> length xs"
  shows "drop lo (take hi xs) = map (\<lambda>j. xs ! j) [lo ..< hi]"
proof -
  have "take hi xs = take hi (map (\<lambda>j. xs ! j) [0 ..< length xs])"
    by (simp add: map_nth)
  also have "\<dots> = map (\<lambda>j. xs ! j) [0 ..< hi]"
    using assms by (simp add: take_map)
  finally show ?thesis by (simp add: drop_map)
qed

lemma window_slice_indices:
  assumes "i < length series" and "0 \<le> half"
  shows "window_slice half series i = map (\<lambda>j. series ! j) (spec_window half (length series) i)"
proof -
  let ?n = "length series"
  let ?lo = "nat (max 0 (int i - half))"
  let ?hi1 = "nat (min (int ?n - 1) (int i + half)) + 1"
  have lo: "window_start half i = int ?lo" by (simp add: window_start_def)
  have hi: "window_end half ?n i + 1 = int ?hi1"
    unfolding window_end_def using assms by arith
  have le: "?hi1 \<le> ?n" using assms by arith
  have lo_le: "?lo \<le> ?n" using assms by arith
  have lo_hi: "?lo \<le> ?hi1" using assms by arith
  have "window_slice half series i = js_slice series (int ?lo) (int ?hi1)"
    by (simp only: window_slice_def lo hi)
  also have "\<dots> = take (?hi1 - ?lo) (drop ?lo series)"
    using lo_hi le by (rule js_slice_nat)
  also have "\<dots> = drop ?lo (take ?hi1 series)" by (simp add: drop_take)
  also have "\<dots> = map (\<lambda>j. series ! j) [?lo ..< ?hi1]"
    using le by (rule slice_map_nth)
  finally show ?thesis by (simp add: spec_window_def)
qed

lemma foldl_add_snd: "foldl (\<lambda>acc r. acc + snd r) a xs = a + sum_list (map snd xs)"
  for a :: real
  by (induction xs arbitrary: a) simp_all

lemma spec_window_in_range:
  assumes "i < n" and "0 \<le> half"
  shows "set (spec_window half n i) \<subseteq> {..<n}" and "i \<in> set (spec_window half n i)"
  using assms by (auto simp: spec_window_def)

lemma movingAverage_nth:
  assumes "i < length series"
  shows "movingAverage m series ! i
     = (fst (series ! i), snd (series ! i), spec_smoothed (window_half m) (map snd series) i)"
proof -
  let ?half = "window_half m"
  have sl: "window_slice ?half series i = map (\<lambda>j. series ! j) (spec_window ?half (length series) i)"
    using assms window_half_nonneg by (rule window_slice_indices)
  have "set (spec_window ?half (length series) i) \<subseteq> {..<length series}"
    using assms window_half_nonneg by (rule spec_window_in_range)
  then have eq: "map (\<lambda>j. snd (series ! j)) (spec_window ?half (length series) i)
      = map (\<lambda>j. map snd series ! j) (spec_window ?half (length series) i)"
    by (intro map_cong refl) auto
  have "sum_list (map snd (window_slice ?half series i))
      = sum_list (map (\<lambda>j. snd (series ! j)) (spec_window ?half (length series) i))"
    by (simp add: sl comp_def)
  also have "\<dots> = sum_list (map (\<lambda>j. map snd series ! j) (spec_window ?half (length series) i))"
    by (simp only: eq)
  finally show ?thesis
    using assms by (simp add: movingAverage_def Let_def foldl_add_snd spec_smoothed_def sl)
qed




lemma length_movingAverage: "length (movingAverage m series) = length series"
  by (simp add: movingAverage_def)

lemma window_w_numeral [simp]: "window_w (numeral k) = max 1 (numeral k)"
  by (simp add: window_w_def)

lemma movingAverage_half_zero:
  assumes "window_half m = 0"
  shows "movingAverage m series = map (\<lambda>(ym, avg). (ym, avg, avg)) series"
proof (rule nth_equalityI)
  show "length (movingAverage m series) = length (map (\<lambda>(ym, avg). (ym, avg, avg)) series)"
    by (simp add: length_movingAverage)
next
  fix i assume "i < length (movingAverage m series)"
  then have i: "i < length series" by (simp add: length_movingAverage)
  then have "spec_window 0 (length series) i = [i]"
    by (simp add: spec_window_def) 
  then have "spec_smoothed 0 (map snd series) i = snd (series ! i)"
    using i by (simp add: spec_smoothed_def)
  then show "movingAverage m series ! i = map (\<lambda>(ym, avg). (ym, avg, avg)) series ! i"
    using i by (simp add: movingAverage_nth assms case_prod_beta)
qed




text \<open>
  C10. For every record list and every window size whose coerced value
  \<open>w = max(1, floor(maWindow))\<close> is 1 or 2: \<open>half\<close> is 0, the slice at every index \<open>i\<close> is
  the single point \<open>i\<close>, the smoothed value of every point equals its average, and the
  series is the one computed with window size 1.
\<close>

theorem small_window_no_smoothing:
  assumes "window_w m = 1 \<or> window_w m = 2"
  shows "window_half m = 0
     \<and> (i < length series \<longrightarrow> window_slice (window_half m) series i = [series ! i])
     \<and> timeSeriesTemp ps m = map (\<lambda>(ym, avg). (ym, avg, avg)) (monthly temperature ps)
     \<and> timeSeriesSal ps m = map (\<lambda>(ym, avg). (ym, avg, avg)) (monthly salinity ps)
     \<and> timeSeriesTemp ps m = timeSeriesTemp ps 1
     \<and> timeSeriesSal ps m = timeSeriesSal ps 1"
proof -
  have h: "window_half m = 0" using assms by (auto simp: window_half_zero_iff)
  have h1: "window_half 1 = 0" by (simp add: window_half_zero_iff window_w_def)
  have "window_slice (window_half m) series i = [series ! i]" if "i < length series"
  proof -
    have "spec_window 0 (length series) i = [i]" using that by (simp add: spec_window_def)
    then show ?thesis using that by (simp add: h window_slice_indices)
  qed
  then show ?thesis
    by (simp add: h timeSeriesTemp_def timeSeriesSal_def movingAverage_half_zero[OF h]
        movingAverage_half_zero[OF h1])
qed


theorem small_window_no_smoothing_witness:
  "window_w 2 = 2 \<and> 1 < length four_months
   \<and> window_half 2 = 0
   \<and> window_slice (window_half 2) four_months 1 = [(''2024-02'', 7)]
   \<and> timeSeriesTemp [sample, sample\<lparr>month := 2, temperature := Some 7\<rparr>] 2
       = map (\<lambda>(ym, avg). (ym, avg, avg))
           (monthly temperature [sample, sample\<lparr>month := 2, temperature := Some 7\<rparr>])
   \<and> timeSeriesTemp [sample, sample\<lparr>month := 2, temperature := Some 7\<rparr>] 2
       = timeSeriesTemp [sample, sample\<lparr>month := 2, temperature := Some 7\<rparr>] 1
   \<and> timeSeriesSal [sample, sample\<lparr>month := 2, temperature := Some 7\<rparr>] 2
       = timeSeriesSal [sample, sample\<lparr>month := 2, temperature := Some 7\<rparr>] 1"
proof -
  have w: "window_w 2 = 1 \<or> window_w 2 = 2" by simp
  have i: "1 < length four_months" by (simp add: four_months_def)
  have n: "[four_months ! 1] = [(''2024-02'', 7)]" by (simp add: four_months_def)
  show ?thesis
    using small_window_no_smoothing[OF w, of 1 four_months
            "[sample, sample\<lparr>month := 2, temperature := Some 7\<rparr>]"] i n
    by auto
qed

section \<open>Monthly series: groups and points\<close>

lemma map_of_add_to_group:
  "map_of (add_to_group k v gs) k' =
     (if k' = k
      then Some (case map_of gs k of None \<Rightarrow> (0 + v, 0 + 1) | Some (s, n) \<Rightarrow> (s + v, n + 1))
      else map_of gs k')"
  by (induction gs) auto

lemma distinct_add_to_group:
  "distinct (map fst gs) \<Longrightarrow> distinct (map fst (add_to_group k v gs))"
proof -
  assume d: "distinct (map fst gs)"
  have "map fst (add_to_group k v gs) = (if k \<in> set (map fst gs) then map fst gs else map fst gs @ [k])"
    by (induction gs) (force split: if_splits)+
  with d show ?thesis by simp
qed

lemma distinct_groups:
  "distinct (map fst acc) \<Longrightarrow>
   distinct (map fst (foldl (\<lambda>groups p. add_to_group (key p) (val p) groups) acc ps))"
  by (induction ps arbitrary: acc) (simp_all add: distinct_add_to_group)

lemma map_of_groups:
  "map_of (foldl (\<lambda>groups p. add_to_group (key p) (val p) groups) acc ps) k =
     (if filter (\<lambda>p. key p = k) ps = [] then map_of acc k
      else Some (fst (case map_of acc k of None \<Rightarrow> (0, 0) | Some x \<Rightarrow> x)
                   + sum_list (map val (filter (\<lambda>p. key p = k) ps)),
                 snd (case map_of acc k of None \<Rightarrow> (0, 0) | Some x \<Rightarrow> x)
                   + length (filter (\<lambda>p. key p = k) ps)))"
proof (induction ps arbitrary: acc)
  case Nil
  then show ?case by simp
next
  case (Cons p ps)
  show ?case
    by (simp only: foldl_Cons Cons.IH map_of_add_to_group)
       (auto split: option.splits simp: algebra_simps)
qed

lemma groups_of_member:
  "(k, (s, n)) \<in> set (groups_of field ps) \<longleftrightarrow>
     filter (\<lambda>p. ym p = k) ps \<noteq> []
     \<and> s = sum_list (map (\<lambda>p. toNumber (field p)) (filter (\<lambda>p. ym p = k) ps))
     \<and> n = length (filter (\<lambda>p. ym p = k) ps)"
proof -
  have "distinct (map fst (groups_of field ps))"
    unfolding groups_of_def by (rule distinct_groups) simp
  then have "(k, (s, n)) \<in> set (groups_of field ps) \<longleftrightarrow> map_of (groups_of field ps) k = Some (s, n)"
    by simp
  then show ?thesis
    unfolding groups_of_def by (auto simp: map_of_groups)
qed



lemma monthly_member:
  "(k, avg) \<in> set (monthly field ps) \<longleftrightarrow>
     filter (\<lambda>p. ym p = k) ps \<noteq> []
     \<and> avg = sum_list (map (\<lambda>p. toNumber (field p)) (filter (\<lambda>p. ym p = k) ps))
             / of_nat (length (filter (\<lambda>p. ym p = k) ps))"
proof -
  have "(k, avg) \<in> set (monthly field ps) \<longleftrightarrow>
      (\<exists>s n. (k, (s, n)) \<in> set (groups_of field ps) \<and> avg = s / of_nat n)"
    by (force simp: monthly_def)
  then show ?thesis by (auto simp: groups_of_member)
qed

lemma monthly_key_set: "set (map fst (monthly field ps)) = ym ` set ps"
proof -
  have "k \<in> fst ` set (monthly field ps) \<longleftrightarrow> k \<in> ym ` set ps" for k
  proof -
    have "k \<in> fst ` set (monthly field ps) \<longleftrightarrow> (\<exists>avg. (k, avg) \<in> set (monthly field ps))"
      by force
    also have "\<dots> \<longleftrightarrow> filter (\<lambda>p. ym p = k) ps \<noteq> []"
      by (simp add: monthly_member)
    also have "\<dots> \<longleftrightarrow> k \<in> ym ` set ps"
      by (auto simp: filter_empty_conv)
    finally show ?thesis .
  qed
  then show ?thesis by auto
qed

lemma movingAverage_keeps_points:
  "map (\<lambda>(ym, avg, ma). (ym, avg)) (movingAverage m series) = series"
proof (rule nth_equalityI)
  show "length (map (\<lambda>(ym, avg, ma). (ym, avg)) (movingAverage m series)) = length series"
    by (simp add: length_movingAverage)
next
  fix i assume "i < length (map (\<lambda>(ym, avg, ma). (ym, avg)) (movingAverage m series))"
  then have "i < length series" by (simp add: length_movingAverage)
  then show "map (\<lambda>(ym, avg, ma). (ym, avg)) (movingAverage m series) ! i = series ! i"
    by (simp add: length_movingAverage movingAverage_nth)
qed

lemma movingAverage_keys: "map fst (movingAverage m series) = map fst series"
proof -
  have "map fst (movingAverage m series)
      = map fst (map (\<lambda>(ym, avg, ma). (ym, avg)) (movingAverage m series))"
    by (simp add: case_prod_beta comp_def)
  then show ?thesis by (simp only: movingAverage_keeps_points)
qed


section \<open>Month keys: printing is injective and ordered\<close>

































section \<open>Monthly series: one point per month, in key order\<close>


lemma timeSeries_key_set:
  "set (map fst (movingAverage m (monthly field ps))) = ym ` set ps"
  by (simp only: movingAverage_keys monthly_key_set)





section \<open>Records with a null field\<close>

lemma bin_of_null_as_zero: "bin_of w (Some (toNumber v)) = bin_of w v"
  by (simp add: bin_of_def)

lemma histogram_null_as_zero:
  assumes "\<And>p. toNumber (field (z p)) = toNumber (field p)"
  shows "histogram field (map z ps) width = histogram field ps width"
proof -
  have "bin_of w (field (z p)) = bin_of w (field p)" for w p
    by (simp add: bin_of_def assms)
  then show ?thesis
    by (simp add: histogram_def fill_bins_def foldl_map)
qed

lemma monthly_null_as_zero:
  assumes "\<And>p. toNumber (field (z p)) = toNumber (field p)"
    and "\<And>p. ym (z p) = ym p"
  shows "monthly field (map z ps) = monthly field ps"
  by (simp add: monthly_def groups_of_def foldl_map assms)

lemma bin_of_null: "bin_of w None = Fin 0"
  by (simp add: bin_of_def round_double_def)

lemma histogram_has_bucket:
  assumes "p \<in> set ps"
  shows "\<exists>c. 0 < c \<and> (bin_of (max double_tenth width) (field p), c) \<in> set (histogram field ps width)"
proof -
  let ?c = "length (filter (\<lambda>q. bin_of (max double_tenth width) (field q) = bin_of (max double_tenth width) (field p)) ps)"
  have "0 < ?c" using assms by (auto simp: filter_empty_conv)
  then have "(bin_of (max double_tenth width) (field p), ?c) \<in> set (histogram field ps width)"
    by (simp add: histogram_member)
  with \<open>0 < ?c\<close> show ?thesis by blast
qed

text \<open>
  C7 as stated (a record with a missing or non-numeric required field is filtered out before
  binning and before monthly grouping, and contributes to no bucket count and no monthly
  average) fails on a record whose temperature is null: it is counted in bucket \<open>0\<close>, and
  next to a record of temperature 10 in the same month it pulls the monthly average down
  to 5. Filtering it out first would give no bucket, and the average 10.
\<close>

theorem null_record_not_excluded_counterexample:
  "tempBins [sample\<lparr>temperature := None\<rparr>] 1 = [(Fin 0, 1)]
   \<and> tempBins (filter (\<lambda>p. temperature p \<noteq> None) [sample\<lparr>temperature := None\<rparr>]) 1 = []
   \<and> timeSeriesTemp [sample, sample\<lparr>temperature := None\<rparr>] 1 = [(''2024-01'', 5, 5)]
   \<and> timeSeriesTemp (filter (\<lambda>p. temperature p \<noteq> None) [sample, sample\<lparr>temperature := None\<rparr>]) 1
       = [(''2024-01'', 10, 10)]"
proof -
  have a: "tempBins [sample\<lparr>temperature := None\<rparr>] 1 = [(Fin 0, 1)]"
    by (simp add: tempBins_def histogram_def fill_bins_def bin_of_null object_entries_def
        number_index_def)
  have b: "tempBins (filter (\<lambda>p. temperature p \<noteq> None) [sample\<lparr>temperature := None\<rparr>]) 1 = []"
    by (simp add: tempBins_def histogram_def fill_bins_def object_entries_def)
  have c: "timeSeriesTemp [sample, sample\<lparr>temperature := None\<rparr>] 1 = [(''2024-01'', 5, 5)]"
    by code_simp
  have d: "timeSeriesTemp (filter (\<lambda>p. temperature p \<noteq> None) [sample, sample\<lparr>temperature := None\<rparr>]) 1
       = [(''2024-01'', 10, 10)]"
    by code_simp
  from a b c d show ?thesis by (intro conjI)
qed

text \<open>
  C7, amended. No record is excluded from aggregation: neither histogram nor monthly series
  filters its input. A record whose measured field is null is aggregated as if the field
  were 0 (the histograms and the series are unchanged when every null is replaced by 0),
  so every record of the input is counted in a bucket of each histogram and in a month of
  each series. (The model has null as the only invalid value of a field; both computations
  are total on it.)
\<close>

theorem null_field_aggregated_as_zero:
  "tempBins (map (\<lambda>p. p\<lparr>temperature := Some (toNumber (temperature p))\<rparr>) ps) width = tempBins ps width
   \<and> salBins (map (\<lambda>p. p\<lparr>salinity := Some (toNumber (salinity p))\<rparr>) ps) width = salBins ps width
   \<and> timeSeriesTemp (map (\<lambda>p. p\<lparr>temperature := Some (toNumber (temperature p))\<rparr>) ps) m
       = timeSeriesTemp ps m
   \<and> timeSeriesSal (map (\<lambda>p. p\<lparr>salinity := Some (toNumber (salinity p))\<rparr>) ps) m
       = timeSeriesSal ps m
   \<and> (p \<in> set ps \<longrightarrow>
        (\<exists>c. 0 < c \<and> (bin_of (max double_tenth width) (temperature p), c) \<in> set (tempBins ps width))
        \<and> (\<exists>c. 0 < c \<and> (bin_of (max double_tenth width) (salinity p), c) \<in> set (salBins ps width))
        \<and> ym p \<in> set (map fst (timeSeriesTemp ps m))
        \<and> ym p \<in> set (map fst (timeSeriesSal ps m)))"
proof (intro conjI impI)
  show "tempBins (map (\<lambda>p. p\<lparr>temperature := Some (toNumber (temperature p))\<rparr>) ps) width = tempBins ps width"
    unfolding tempBins_def by (rule histogram_null_as_zero) simp
  show "salBins (map (\<lambda>p. p\<lparr>salinity := Some (toNumber (salinity p))\<rparr>) ps) width = salBins ps width"
    unfolding salBins_def by (rule histogram_null_as_zero) simp
  have "monthly temperature (map (\<lambda>p. p\<lparr>temperature := Some (toNumber (temperature p))\<rparr>) ps)
      = monthly temperature ps"
    by (rule monthly_null_as_zero) (simp_all add: ym_def)
  then show "timeSeriesTemp (map (\<lambda>p. p\<lparr>temperature := Some (toNumber (temperature p))\<rparr>) ps) m
       = timeSeriesTemp ps m"
    by (simp add: timeSeriesTemp_def)
  have "monthly salinity (map (\<lambda>p. p\<lparr>salinity := Some (toNumber (salinity p))\<rparr>) ps)
      = monthly salinity ps"
    by (rule monthly_null_as_zero) (simp_all add: ym_def)
  then show "timeSeriesSal (map (\<lambda>p. p\<lparr>salinity := Some (toNumber (salinity p))\<rparr>) ps) m
       = timeSeriesSal ps m"
    by (simp add: timeSeriesSal_def)
next
  assume p: "p \<in> set ps"
  show "\<exists>c. 0 < c \<and> (bin_of (max double_tenth width) (temperature p), c) \<in> set (tempBins ps width)"
    using histogram_has_bucket[OF p, of width temperature] by (simp add: tempBins_def)
  show "\<exists>c. 0 < c \<and> (bin_of (max double_tenth width) (salinity p), c) \<in> set (salBins ps width)"
    using histogram_has_bucket[OF p, of width salinity] by (simp add: salBins_def)
  show "ym p \<in> set (map fst (timeSeriesTemp ps m))"
    unfolding timeSeriesTemp_def timeSeries_key_set using p by (rule imageI)
  show "ym p \<in> set (map fst (timeSeriesSal ps m))"
    unfolding timeSeriesSal_def timeSeries_key_set using p by (rule imageI)
qed

theorem null_field_aggregated_as_zero_witness:
  "sample\<lparr>temperature := None\<rparr> \<in> set [sample, sample\<lparr>temperature := None\<rparr>]
   \<and> tempBins [sample\<lparr>temperature := Some 10\<rparr>, sample\<lparr>temperature := Some 0\<rparr>] 1
       = tempBins [sample, sample\<lparr>temperature := None\<rparr>] 1
   \<and> (\<exists>c. 0 < c \<and> (Fin 0, c) \<in> set (tempBins [sample, sample\<lparr>temperature := None\<rparr>] 1))
   \<and> ym (sample\<lparr>temperature := None\<rparr>)
       \<in> set (map fst (timeSeriesTemp [sample, sample\<lparr>temperature := None\<rparr>] 1))"
  using null_field_aggregated_as_zero[of "[sample, sample\<lparr>temperature := None\<rparr>]" 1 1
      "sample\<lparr>temperature := None\<rparr>"]
  by (simp add: sample_def bin_of_null)

section \<open>Map view: keys, hits and failures\<close>

lemma join_comma_has_comma: "CHR '','' \<in> set (join '','' (x # y # ys))"
  by simp

lemma cacheKey_not_fallback: "cacheKey str b filters \<noteq> ''fallback''"
proof
  assume "cacheKey str b filters = ''fallback''"
  moreover have "CHR '','' \<in> set (cacheKey str b filters)"
    unfolding cacheKey_def by (rule join_comma_has_comma)
  ultimately have "CHR '','' \<in> set ''fallback''" by simp
  then show False by simp
qed

lemma fetchProfiles_hit:
  assumes "cache s (cacheKey str b filters) = Some stored"
  shows "fetchProfiles str fetch (Some b) filters s = s\<lparr>profiles := stored, loading := False\<rparr>"
  using assms by (simp add: fetchProfiles_def)

lemma fetchProfiles_rejected:
  assumes "cache s (cacheKey str b filters) = None"
    and "fetch (request_params str b filters) = Rejected"
  shows "fetchProfiles str fetch (Some b) filters s =
     s\<lparr>profiles := (case cache s ''fallback'' of Some fallbackData \<Rightarrow> fallbackData | None \<Rightarrow> profiles s),
       loading := False,
       fetched := fetched s @ [request_params str b filters]\<rparr>"
  using assms by (simp add: fetchProfiles_def Let_def split: option.splits)

lemma fetchProfiles_nonempty:
  assumes "cache s (cacheKey str b filters) = None"
    and "fetch (request_params str b filters) = Json r"
    and "results_or_empty r \<noteq> []"
  shows "fetchProfiles str fetch (Some b) filters s =
     s\<lparr>profiles := results_or_empty r,
       cache := (cache s)(cacheKey str b filters \<mapsto> results_or_empty r),
       loading := False,
       fetched := fetched s @ [request_params str b filters]\<rparr>"
  using assms by (simp add: fetchProfiles_def Let_def)

lemma fetchProfiles_stores:
  assumes "cache s (cacheKey str b filters) = None"
    and "fetch (request_params str b filters) = Json r"
  shows "cache (fetchProfiles str fetch (Some b) filters s) (cacheKey str b filters)
     = Some (results_or_empty r)"
  using assms cacheKey_not_fallback[of str b filters]
  by (simp add: fetchProfiles_def Let_def split: response.splits)

lemma fetchProfiles_keeps_entry:
  assumes "cache s k = Some stored" and "k \<noteq> ''fallback''"
  shows "cache (fetchProfiles str fetch mapBounds filters s) k = Some stored"
proof (cases mapBounds)
  case None
  with assms show ?thesis by (simp add: fetchProfiles_def)
next
  case (Some b)
  show ?thesis
  proof (cases "cache s (cacheKey str b filters)")
    case hit: (Some ps)
    with assms Some show ?thesis by (simp add: fetchProfiles_def)
  next
    case None
    with assms have "cacheKey str b filters \<noteq> k" by auto
    with assms Some None show ?thesis
      by (simp add: fetchProfiles_def Let_def split: response.splits option.splits)
  qed
qed

lemma run_calls_keeps_entry:
  assumes "cache s k = Some stored" and "k \<noteq> ''fallback''"
  shows "cache (run_calls str calls s) k = Some stored"
  using assms
proof (induction calls arbitrary: s)
  case Nil
  then show ?case by (simp add: run_calls_def)
next
  case (Cons c calls)
  obtain fetch mb fl where c: "c = (fetch, mb, fl)" by (cases c)
  have "cache (fetchProfiles str fetch mb fl s) k = Some stored"
    using Cons.prems by (rule fetchProfiles_keeps_entry)
  then have "cache (run_calls str calls (fetchProfiles str fetch mb fl s)) k = Some stored"
    using Cons.prems(2) by (rule Cons.IH)
  then show ?case by (simp add: run_calls_def c)
qed

lemma toFixed3_below:
  "0 \<le> a \<Longrightarrow> a < 10 ^ 21 \<Longrightarrow>
   (if 10 ^ 21 \<le> a then str a
    else let n = nat \<lfloor>a * 1000 + 1 / 2\<rfloor>;
             m = digits n;
             m = (if length m \<le> 3 then replicate (3 + 1 - length m) CHR ''0'' @ m else m)
         in take (length m - 3) m @ ''.'' @ drop (length m - 3) m)
   = (let m = digits (nat \<lfloor>a * 1000 + 1 / 2\<rfloor>);
          m = (if length m \<le> 3 then replicate (3 + 1 - length m) CHR ''0'' @ m else m)
      in take (length m - 3) m @ ''.'' @ drop (length m - 3) m)"
  by (simp only: Let_def not_le[symmetric] if_False)

lemma toFixed3_neg:
  assumes "x < 0" and "- x < 10 ^ 21"
  shows "toFixed3 str x =
     ''-'' @ (let m = digits (nat \<lfloor>- x * 1000 + 1 / 2\<rfloor>);
                 m = (if length m \<le> 3 then replicate (3 + 1 - length m) CHR ''0'' @ m else m)
             in take (length m - 3) m @ ''.'' @ drop (length m - 3) m)"
proof -
  have "0 \<le> - x" using assms(1) by simp
  from toFixed3_below[OF this assms(2), of str] show ?thesis
    unfolding toFixed3_def by (simp only: Let_def assms(1) if_True)
qed

lemma toFixed3_nonneg:
  assumes "0 \<le> x" and "x < 10 ^ 21"
  shows "toFixed3 str x =
     (let m = digits (nat \<lfloor>x * 1000 + 1 / 2\<rfloor>);
          m = (if length m \<le> 3 then replicate (3 + 1 - length m) CHR ''0'' @ m else m)
      in take (length m - 3) m @ ''.'' @ drop (length m - 3) m)"
proof -
  have n: "\<not> x < 0" using assms(1) by simp
  from toFixed3_below[OF assms, of str] show ?thesis
    unfolding toFixed3_def by (simp only: Let_def n if_False append_Nil)
qed

lemma toFixed3_rounded:
  assumes "x < 0 \<longleftrightarrow> y < 0" and "\<bar>x\<bar> < 10 ^ 21" and "\<bar>y\<bar> < 10 ^ 21"
    and "\<lfloor>\<bar>x\<bar> * 1000 + 1 / 2\<rfloor> = \<lfloor>\<bar>y\<bar> * 1000 + 1 / 2\<rfloor>"
  shows "toFixed3 str x = toFixed3 str y"
proof (cases "x < 0")
  case True
  with assms(1) have y: "y < 0" by blast
  have ax: "\<bar>x\<bar> = - x" using True by (rule abs_of_neg)
  have ay: "\<bar>y\<bar> = - y" using y by (rule abs_of_neg)
  from assms(2) have bx: "- x < 10 ^ 21" by (simp only: ax)
  from assms(3) have by': "- y < 10 ^ 21" by (simp only: ay)
  from assms(4) have "\<lfloor>- x * 1000 + 1 / 2\<rfloor> = \<lfloor>- y * 1000 + 1 / 2\<rfloor>" by (simp only: ax ay)
  then show ?thesis by (simp only: toFixed3_neg[OF True bx] toFixed3_neg[OF y by'])
next
  case False
  with assms(1) have "\<not> y < 0" by blast
  then have y: "0 \<le> y" by (simp only: not_less)
  from False have x: "0 \<le> x" by (simp only: not_less)
  have ax: "\<bar>x\<bar> = x" using x by (rule abs_of_nonneg)
  have ay: "\<bar>y\<bar> = y" using y by (rule abs_of_nonneg)
  from assms(2) have bx: "x < 10 ^ 21" by (simp only: ax)
  from assms(3) have by': "y < 10 ^ 21" by (simp only: ay)
  from assms(4) have "\<lfloor>x * 1000 + 1 / 2\<rfloor> = \<lfloor>y * 1000 + 1 / 2\<rfloor>" by (simp only: ax ay)
  then show ?thesis by (simp only: toFixed3_nonneg[OF x bx] toFixed3_nonneg[OF y by'])
qed

lemma request_params_clamped:
  "clamp_bounds b1 = clamp_bounds b2 \<Longrightarrow> request_params str b1 filters = request_params str b2 filters"
  by (simp add: request_params_def)

lemma replicate_small:
  "replicate 1 c = [c]" "replicate 2 c = [c, c]" "replicate 3 c = [c, c, c]"
  by (simp_all add: numeral_2_eq_2 numeral_3_eq_3)

lemma digits_examples:
  "digits 0 = ''0''" "digits 5 = ''5''" "digits 10 = ''10''" "digits 20 = ''20''"
  "digits 180 = ''180''" "digits 5000 = ''5000''" "digits 10000 = ''10000''"
  "digits 20000 = ''20000''" "digits 200000 = ''200000''" "digits 250000 = ''250000''"
  by (simp_all add: digits.simps digit_char_def)

lemma toFixed3_examples:
  "toFixed3 str 0 = ''0.000''"
  "toFixed3 str 5 = ''5.000''"
  "toFixed3 str 10 = ''10.000''"
  "toFixed3 str 20 = ''20.000''"
  "toFixed3 str (- 10) = ''-10.000''"
  "toFixed3 str (- 200) = ''-200.000''"
  "toFixed3 str (- 250) = ''-250.000''"
  by (simp_all add: toFixed3_neg toFixed3_nonneg digits_examples replicate_small)

lemma print_integer_examples:
  "print_integer 0 = ''0''"
  "print_integer 5 = ''5''"
  "print_integer 10 = ''10''"
  "print_integer 20 = ''20''"
  "print_integer (- 10) = ''-10''"
  "print_integer (- 180) = ''-180''"
  by (simp_all add: print_integer_def str_int_def digits_examples)

lemma clamp_examples:
  "clamp_bounds view_a = \<lparr>south = - 10, west = - 180, north = 10, east = 20\<rparr>"
  "clamp_bounds view_b = \<lparr>south = - 10, west = - 180, north = 10, east = 20\<rparr>"
  "clamp_bounds view_c = \<lparr>south = 0, west = 0, north = 5, east = 5\<rparr>"
  by (simp_all add: clamp_bounds_def view_a_def view_b_def view_c_def)

lemma key_a: "cacheKey print_integer view_a no_filter
    = ''-10.000,-250.000,10.000,20.000,any,any,any,any,any,any,any''"
  by (simp add: cacheKey_def no_filter_def view_a_def toFixed3_examples)

lemma key_b: "cacheKey print_integer view_b no_filter
    = ''-10.000,-200.000,10.000,20.000,any,any,any,any,any,any,any''"
  by (simp add: cacheKey_def no_filter_def view_b_def toFixed3_examples)

lemma key_c: "cacheKey print_integer view_c no_filter
    = ''0.000,0.000,5.000,5.000,any,any,any,any,any,any,any''"
  by (simp add: cacheKey_def no_filter_def view_c_def toFixed3_examples)

lemma key_e_d: "cacheKey print_integer view_e no_filter = cacheKey print_integer view_d no_filter"
proof -
  have "toFixed3 print_integer (west view_e) = toFixed3 print_integer (west view_d)"
    by (rule toFixed3_rounded) (simp_all add: view_d_def view_e_def)
  moreover have "south view_e = south view_d" "north view_e = north view_d" "east view_e = east view_d"
    by (simp_all add: view_d_def view_e_def)
  ultimately show ?thesis by (simp add: cacheKey_def)
qed

lemma params_a: "request_params print_integer view_a no_filter
    = [(''limit'', ''500''), (''min_lat'', ''-10''), (''max_lat'', ''10''),
       (''min_lon'', ''-180''), (''max_lon'', ''20'')]"
  by (simp add: request_params_def Let_def clamp_examples print_integer_examples no_filter_def)

lemma params_b: "request_params print_integer view_b no_filter
    = [(''limit'', ''500''), (''min_lat'', ''-10''), (''max_lat'', ''10''),
       (''min_lon'', ''-180''), (''max_lon'', ''20'')]"
  by (simp add: request_params_def Let_def clamp_examples print_integer_examples no_filter_def)

lemma params_c: "request_params print_integer view_c no_filter
    = [(''limit'', ''500''), (''min_lat'', ''0''), (''max_lat'', ''5''),
       (''min_lon'', ''0''), (''max_lon'', ''5'')]"
  by (simp add: request_params_def Let_def clamp_examples print_integer_examples no_filter_def)

lemmas eval_fetch = run_calls_def fetchProfiles_def Let_def initial_view_def key_a key_b key_c
  params_a params_b params_c offline_def serving_def empty_in_bounds_def fallback_params_def

text \<open>
  C1 as stated (the cache key is built from the clamped bounds, so two calls whose raw bounds
  clamp to the same effective bounds share one key) fails: the key is built from the raw
  bounds, and the clamp comes later, on the way to the request. Two views whose western
  edges, \<open>-250\<close> and \<open>-200\<close>, both clamp to \<open>-180\<close> get different keys, and the second call
  fetches again.
\<close>

theorem clamped_bounds_keyed_apart_counterexample:
  "clamp_bounds view_a = clamp_bounds view_b
   \<and> cacheKey print_integer view_a no_filter \<noteq> cacheKey print_integer view_b no_filter
   \<and> length (fetched (run_calls print_integer
        [(serving [sample], Some view_a, no_filter), (serving [sample], Some view_b, no_filter)]
        initial_view)) = 2"
  by (simp add: eval_fetch) (simp add: clamp_bounds_def view_a_def view_b_def)

text \<open>
  C1, amended. The cache key is built from the raw bounds: each of south, west, north and
  east is rounded to three decimals by \<open>toFixed(3)\<close> (two numbers of the same sign below
  \<open>10^21\<close> with the same nearest thousandth print alike) and joined with the filter values.
  Two calls with the same filters whose raw bounds print alike produce the same key and
  share one cache entry: an entry stored for the one is shown for the other without a
  request. The clamp to \<open>[-90, 90]\<close> and \<open>[-180, 180]\<close> determines the query parameters of
  the request, not the key.
\<close>

theorem cache_key_from_raw_bounds:
  "((x < 0 \<longleftrightarrow> y < 0) \<and> \<bar>x\<bar> < 10 ^ 21 \<and> \<bar>y\<bar> < 10 ^ 21
      \<and> \<lfloor>\<bar>x\<bar> * 1000 + 1 / 2\<rfloor> = \<lfloor>\<bar>y\<bar> * 1000 + 1 / 2\<rfloor> \<longrightarrow>
      toFixed3 str x = toFixed3 str y)
   \<and> (toFixed3 str (south b1) = toFixed3 str (south b2)
        \<and> toFixed3 str (west b1) = toFixed3 str (west b2)
        \<and> toFixed3 str (north b1) = toFixed3 str (north b2)
        \<and> toFixed3 str (east b1) = toFixed3 str (east b2) \<longrightarrow>
        cacheKey str b1 filters = cacheKey str b2 filters
        \<and> (cache s (cacheKey str b1 filters) = Some stored \<longrightarrow>
             fetchProfiles str fetch (Some b2) filters s = s\<lparr>profiles := stored, loading := False\<rparr>))
   \<and> (clamp_bounds b1 = clamp_bounds b2 \<longrightarrow>
        request_params str b1 filters = request_params str b2 filters)"
proof (intro conjI impI)
  assume "(x < 0 \<longleftrightarrow> y < 0) \<and> \<bar>x\<bar> < 10 ^ 21 \<and> \<bar>y\<bar> < 10 ^ 21
      \<and> \<lfloor>\<bar>x\<bar> * 1000 + 1 / 2\<rfloor> = \<lfloor>\<bar>y\<bar> * 1000 + 1 / 2\<rfloor>"
  then show "toFixed3 str x = toFixed3 str y" by (intro toFixed3_rounded) simp_all
next
  assume e: "toFixed3 str (south b1) = toFixed3 str (south b2)
        \<and> toFixed3 str (west b1) = toFixed3 str (west b2)
        \<and> toFixed3 str (north b1) = toFixed3 str (north b2)
        \<and> toFixed3 str (east b1) = toFixed3 str (east b2)"
  then show k: "cacheKey str b1 filters = cacheKey str b2 filters"
    by (simp add: cacheKey_def)
  assume "cache s (cacheKey str b1 filters) = Some stored"
  then have "cache s (cacheKey str b2 filters) = Some stored" by (simp only: k)
  then show "fetchProfiles str fetch (Some b2) filters s = s\<lparr>profiles := stored, loading := False\<rparr>"
    by (rule fetchProfiles_hit)
next
  assume "clamp_bounds b1 = clamp_bounds b2"
  then show "request_params str b1 filters = request_params str b2 filters"
    by (rule request_params_clamped)
qed

theorem cache_key_from_raw_bounds_witness:
  "(west view_d < 0 \<longleftrightarrow> west view_e < 0)
   \<and> \<bar>west view_d\<bar> < 10 ^ 21 \<and> \<bar>west view_e\<bar> < 10 ^ 21
   \<and> \<lfloor>\<bar>west view_d\<bar> * 1000 + 1 / 2\<rfloor> = \<lfloor>\<bar>west view_e\<bar> * 1000 + 1 / 2\<rfloor>
   \<and> west view_d \<noteq> west view_e
   \<and> toFixed3 print_integer (west view_d) = toFixed3 print_integer (west view_e)
   \<and> cacheKey print_integer view_d no_filter = cacheKey print_integer view_e no_filter
   \<and> fetchProfiles print_integer offline (Some view_e) no_filter
        (initial_view\<lparr>cache := [cacheKey print_integer view_d no_filter \<mapsto> [sample]]\<rparr>)
       = initial_view\<lparr>cache := [cacheKey print_integer view_d no_filter \<mapsto> [sample]],
                      profiles := [sample], loading := False\<rparr>
   \<and> clamp_bounds view_d = clamp_bounds view_e
   \<and> request_params print_integer view_d no_filter = request_params print_integer view_e no_filter"
proof -
  let ?s = "initial_view\<lparr>cache := [cacheKey print_integer view_d no_filter \<mapsto> [sample]]\<rparr>"
  have r: "(west view_d < 0 \<longleftrightarrow> west view_e < 0)
      \<and> \<bar>west view_d\<bar> < 10 ^ 21 \<and> \<bar>west view_e\<bar> < 10 ^ 21
      \<and> \<lfloor>\<bar>west view_d\<bar> * 1000 + 1 / 2\<rfloor> = \<lfloor>\<bar>west view_e\<bar> * 1000 + 1 / 2\<rfloor>"
    by (simp add: view_d_def view_e_def)
  have n: "west view_d \<noteq> west view_e" by (simp add: view_d_def view_e_def)
  have w: "toFixed3 print_integer (south view_d) = toFixed3 print_integer (south view_e)"
    "toFixed3 print_integer (north view_d) = toFixed3 print_integer (north view_e)"
    "toFixed3 print_integer (east view_d) = toFixed3 print_integer (east view_e)"
    by (simp_all add: view_d_def view_e_def)
  have c: "clamp_bounds view_d = clamp_bounds view_e"
    by (simp add: clamp_bounds_def view_d_def view_e_def)
  have h: "cache ?s (cacheKey print_integer view_d no_filter) = Some [sample]"
    by simp
  note T = cache_key_from_raw_bounds[of "west view_d" "west view_e" print_integer view_d view_e
      no_filter ?s "[sample]" offline]
  from T r have t: "toFixed3 print_integer (west view_d) = toFixed3 print_integer (west view_e)"
    by blast
  from T t w h have k: "cacheKey print_integer view_d no_filter = cacheKey print_integer view_e no_filter"
    and f: "fetchProfiles print_integer offline (Some view_e) no_filter ?s
        = ?s\<lparr>profiles := [sample], loading := False\<rparr>"
    by blast+
  from T c
  have p: "request_params print_integer view_d no_filter = request_params print_integer view_e no_filter"
    by blast
  from r n t k f c p show ?thesis by simp
qed

text \<open>
  C3 as stated (two calls whose bounds and filters map to the same key cause exactly one
  fetcher invocation, for any sequence of calls) fails when the first call's request
  fails: nothing is stored, and the second call issues the same request again.
\<close>

theorem failed_fetch_refetched_counterexample:
  "cacheKey print_integer view_c no_filter = cacheKey print_integer view_c no_filter
   \<and> fetched (run_calls print_integer
        [(offline, Some view_c, no_filter), (serving [sample], Some view_c, no_filter)]
        initial_view)
      = [request_params print_integer view_c no_filter, request_params print_integer view_c no_filter]"
  by (simp add: eval_fetch)


text \<open>
  C3, amended. On a cache-key hit \<open>fetchProfiles\<close> shows the stored records at once and
  issues no request (no stale-check, no re-validation). Once a call has missed and its
  request has come back with a body, the entry it stored stays as it is through any
  sequence of later calls, so every later call whose bounds and filters map to the same
  key issues no request and shows the records of that first response. A call that misses
  and receives a non-empty result issues exactly one request. (Calls are sequential; a
  first call whose request fails stores nothing, and one whose result is empty also
  issues the fallback request.)
\<close>

theorem cache_hit_skips_fetch:
  "(cache s (cacheKey str b filters) = Some stored \<longrightarrow>
      fetchProfiles str fetch (Some b) filters s = s\<lparr>profiles := stored, loading := False\<rparr>
      \<and> fetched (fetchProfiles str fetch (Some b) filters s) = fetched s)
   \<and> (cache s0 (cacheKey str b filters) = None \<and> fetch (request_params str b filters) = Json r
        \<and> cacheKey str b' filters' = cacheKey str b filters \<longrightarrow>
        fetched (fetchProfiles str fetch' (Some b') filters'
                   (run_calls str calls (fetchProfiles str fetch (Some b) filters s0)))
          = fetched (run_calls str calls (fetchProfiles str fetch (Some b) filters s0))
        \<and> profiles (fetchProfiles str fetch' (Some b') filters'
                   (run_calls str calls (fetchProfiles str fetch (Some b) filters s0)))
          = results_or_empty r)
   \<and> (cache s0 (cacheKey str b filters) = None \<and> fetch (request_params str b filters) = Json r
        \<and> results_or_empty r \<noteq> [] \<longrightarrow>
        fetched (fetchProfiles str fetch (Some b) filters s0)
          = fetched s0 @ [request_params str b filters])"
proof (intro conjI impI)
  assume "cache s (cacheKey str b filters) = Some stored"
  then have h: "fetchProfiles str fetch (Some b) filters s = s\<lparr>profiles := stored, loading := False\<rparr>"
    by (rule fetchProfiles_hit)
  then show "fetchProfiles str fetch (Some b) filters s = s\<lparr>profiles := stored, loading := False\<rparr>" .
  from h show "fetched (fetchProfiles str fetch (Some b) filters s) = fetched s" by simp
next
  assume a: "cache s0 (cacheKey str b filters) = None \<and> fetch (request_params str b filters) = Json r
        \<and> cacheKey str b' filters' = cacheKey str b filters"
  let ?s1 = "run_calls str calls (fetchProfiles str fetch (Some b) filters s0)"
  from a have "cache (fetchProfiles str fetch (Some b) filters s0) (cacheKey str b filters)
      = Some (results_or_empty r)"
    by (intro fetchProfiles_stores) simp_all
  then have "cache ?s1 (cacheKey str b filters) = Some (results_or_empty r)"
    using cacheKey_not_fallback by (rule run_calls_keeps_entry)
  with a have "cache ?s1 (cacheKey str b' filters') = Some (results_or_empty r)" by simp
  then have h: "fetchProfiles str fetch' (Some b') filters' ?s1
      = ?s1\<lparr>profiles := results_or_empty r, loading := False\<rparr>"
    by (rule fetchProfiles_hit)
  from h show "fetched (fetchProfiles str fetch' (Some b') filters' ?s1) = fetched ?s1" by simp
  from h show "profiles (fetchProfiles str fetch' (Some b') filters' ?s1) = results_or_empty r" by simp
next
  assume "cache s0 (cacheKey str b filters) = None \<and> fetch (request_params str b filters) = Json r
        \<and> results_or_empty r \<noteq> []"
  then have "fetchProfiles str fetch (Some b) filters s0 =
     s0\<lparr>profiles := results_or_empty r,
       cache := (cache s0)(cacheKey str b filters \<mapsto> results_or_empty r),
       loading := False,
       fetched := fetched s0 @ [request_params str b filters]\<rparr>"
    by (intro fetchProfiles_nonempty) simp_all
  then show "fetched (fetchProfiles str fetch (Some b) filters s0)
          = fetched s0 @ [request_params str b filters]"
    by simp
qed

theorem cache_hit_skips_fetch_witness:
  "cache (initial_view\<lparr>cache := [cacheKey print_integer view_d no_filter \<mapsto> [january]]\<rparr>)
      (cacheKey print_integer view_d no_filter) = Some [january]
   \<and> fetched (fetchProfiles print_integer (serving [february]) (Some view_d) no_filter
        (initial_view\<lparr>cache := [cacheKey print_integer view_d no_filter \<mapsto> [january]]\<rparr>))
       = fetched (initial_view\<lparr>cache := [cacheKey print_integer view_d no_filter \<mapsto> [january]]\<rparr>)
   \<and> cache initial_view (cacheKey print_integer view_d no_filter) = None
   \<and> serving [february] (request_params print_integer view_d no_filter) = Json (Some [february])
   \<and> cacheKey print_integer view_e no_filter = cacheKey print_integer view_d no_filter
   \<and> [february] \<noteq> []
   \<and> profiles (fetchProfiles print_integer offline (Some view_e) no_filter
        (run_calls print_integer [(offline, Some view_a, no_filter)]
           (fetchProfiles print_integer (serving [february]) (Some view_d) no_filter initial_view)))
       = [february]
   \<and> fetched (fetchProfiles print_integer offline (Some view_e) no_filter
        (run_calls print_integer [(offline, Some view_a, no_filter)]
           (fetchProfiles print_integer (serving [february]) (Some view_d) no_filter initial_view)))
       = fetched (run_calls print_integer [(offline, Some view_a, no_filter)]
           (fetchProfiles print_integer (serving [february]) (Some view_d) no_filter initial_view))
   \<and> fetched (fetchProfiles print_integer (serving [february]) (Some view_d) no_filter initial_view)
       = fetched initial_view @ [request_params print_integer view_d no_filter]"
proof -
  let ?s = "initial_view\<lparr>cache := [cacheKey print_integer view_d no_filter \<mapsto> [january]]\<rparr>"
  have h: "cache ?s (cacheKey print_integer view_d no_filter) = Some [january]" by simp
  have m: "cache initial_view (cacheKey print_integer view_d no_filter) = None"
    by (simp add: initial_view_def)
  have j: "serving [february] (request_params print_integer view_d no_filter) = Json (Some [february])"
    by (simp add: serving_def)
  have k: "cacheKey print_integer view_e no_filter = cacheKey print_integer view_d no_filter"
    by (rule key_e_d)
  have e: "[february] \<noteq> []" by simp
  have r: "results_or_empty (Some [february]) = [february]" by simp
  note T = cache_hit_skips_fetch[of ?s print_integer view_d no_filter "[january]" "serving [february]"
      initial_view "Some [february]" view_e no_filter offline "[(offline, Some view_a, no_filter)]",
      unfolded r]
  from T h m j k e show ?thesis by blast
qed

text \<open>
  C2 as stated (on failure the call returns the most recent successful result computed
  under any prior key) fails: the catch block reads the fixed cache entry \<open>'fallback'\<close>,
  which is written only by the unbounded follow-up query after an empty result. After a
  first call whose bounds query was empty (fallback query: the January record) and a
  second call that fetched the February record, a third call that fails shows the January
  record, not the most recent successful result.
\<close>

theorem failed_fetch_shows_fallback_slot_counterexample:
  "profiles (run_calls print_integer
      [(empty_in_bounds [january], Some view_a, no_filter),
       (serving [february], Some view_b, no_filter)] initial_view) = [february]
   \<and> profiles (run_calls print_integer
      [(empty_in_bounds [january], Some view_a, no_filter),
       (serving [february], Some view_b, no_filter),
       (offline, Some view_c, no_filter)] initial_view) = [january]
   \<and> month january \<noteq> month february"
  by (simp add: eval_fetch) (simp add: january_def february_def sample_def)

text \<open>
  C2, amended. When the request of \<open>fetchProfiles\<close> fails (the key not being cached), the
  cache is left unchanged, so no entry is created for the requested key; the displayed
  profiles become the cache entry \<open>'fallback'\<close> if there is one, and are left as they were
  otherwise (empty on a first call). In particular, after one successful non-empty fetch
  from the initial state, a later call with a different key whose request fails leaves that
  previous successful result displayed.
\<close>

theorem failed_fetch_falls_back:
  "(cache s (cacheKey str b filters) = None \<and> fetch (request_params str b filters) = Rejected \<longrightarrow>
      cache (fetchProfiles str fetch (Some b) filters s) = cache s
      \<and> cache (fetchProfiles str fetch (Some b) filters s) (cacheKey str b filters) = None
      \<and> profiles (fetchProfiles str fetch (Some b) filters s)
          = (case cache s ''fallback'' of Some fallbackData \<Rightarrow> fallbackData | None \<Rightarrow> profiles s)
      \<and> fetched (fetchProfiles str fetch (Some b) filters s)
          = fetched s @ [request_params str b filters])
   \<and> (fetch1 (request_params str b1 filters1) = Json r \<and> results_or_empty r \<noteq> []
        \<and> cacheKey str b2 filters2 \<noteq> cacheKey str b1 filters1
        \<and> fetch2 (request_params str b2 filters2) = Rejected \<longrightarrow>
        profiles (fetchProfiles str fetch2 (Some b2) filters2
                    (fetchProfiles str fetch1 (Some b1) filters1 initial_view))
          = results_or_empty r)
   \<and> (fetch (request_params str b filters) = Rejected \<longrightarrow>
        profiles (fetchProfiles str fetch (Some b) filters initial_view) = [])"
proof (intro conjI impI)
  assume a: "cache s (cacheKey str b filters) = None \<and> fetch (request_params str b filters) = Rejected"
  then have h: "fetchProfiles str fetch (Some b) filters s =
     s\<lparr>profiles := (case cache s ''fallback'' of Some fallbackData \<Rightarrow> fallbackData | None \<Rightarrow> profiles s),
       loading := False,
       fetched := fetched s @ [request_params str b filters]\<rparr>"
    by (intro fetchProfiles_rejected) simp_all
  from h show "cache (fetchProfiles str fetch (Some b) filters s) = cache s" by simp
  from h a show "cache (fetchProfiles str fetch (Some b) filters s) (cacheKey str b filters) = None"
    by simp
  from h show "profiles (fetchProfiles str fetch (Some b) filters s)
          = (case cache s ''fallback'' of Some fallbackData \<Rightarrow> fallbackData | None \<Rightarrow> profiles s)"
    by simp
  from h show "fetched (fetchProfiles str fetch (Some b) filters s)
          = fetched s @ [request_params str b filters]"
    by simp
next
  assume a: "fetch1 (request_params str b1 filters1) = Json r \<and> results_or_empty r \<noteq> []
        \<and> cacheKey str b2 filters2 \<noteq> cacheKey str b1 filters1
        \<and> fetch2 (request_params str b2 filters2) = Rejected"
  let ?s1 = "fetchProfiles str fetch1 (Some b1) filters1 initial_view"
  have s1: "?s1 = initial_view\<lparr>profiles := results_or_empty r,
       cache := (cache initial_view)(cacheKey str b1 filters1 \<mapsto> results_or_empty r),
       loading := False,
       fetched := fetched initial_view @ [request_params str b1 filters1]\<rparr>"
    using a by (intro fetchProfiles_nonempty) (simp_all add: initial_view_def)
  have iv: "cache initial_view = Map.empty" by (simp add: initial_view_def)
  have miss: "cache ?s1 (cacheKey str b2 filters2) = None"
    using a by (simp add: s1 iv)
  have nofb: "cache ?s1 ''fallback'' = None"
    using cacheKey_not_fallback[of str b1 filters1] by (simp add: s1 iv)
  have "fetchProfiles str fetch2 (Some b2) filters2 ?s1 =
     ?s1\<lparr>profiles := (case cache ?s1 ''fallback'' of Some fallbackData \<Rightarrow> fallbackData | None \<Rightarrow> profiles ?s1),
       loading := False,
       fetched := fetched ?s1 @ [request_params str b2 filters2]\<rparr>"
    using miss a by (intro fetchProfiles_rejected) simp_all
  then show "profiles (fetchProfiles str fetch2 (Some b2) filters2 ?s1) = results_or_empty r"
    by (simp add: nofb) (simp add: s1)
next
  assume "fetch (request_params str b filters) = Rejected"
  then show "profiles (fetchProfiles str fetch (Some b) filters initial_view) = []"
    by (simp add: fetchProfiles_def initial_view_def Let_def)
qed


theorem failed_fetch_falls_back_witness:
  "cache stale_view (cacheKey print_integer view_c no_filter) = None
   \<and> offline (request_params print_integer view_c no_filter) = Rejected
   \<and> cache (fetchProfiles print_integer offline (Some view_c) no_filter stale_view) = cache stale_view
   \<and> profiles (fetchProfiles print_integer offline (Some view_c) no_filter stale_view) = [january]
   \<and> serving [sample] (request_params print_integer view_a no_filter) = Json (Some [sample])
   \<and> [sample] \<noteq> []
   \<and> cacheKey print_integer view_b no_filter \<noteq> cacheKey print_integer view_a no_filter
   \<and> offline (request_params print_integer view_b no_filter) = Rejected
   \<and> profiles (fetchProfiles print_integer offline (Some view_b) no_filter
        (fetchProfiles print_integer (serving [sample]) (Some view_a) no_filter initial_view))
       = [sample]
   \<and> profiles (fetchProfiles print_integer offline (Some view_c) no_filter initial_view) = []"
proof -
  have m: "cache stale_view (cacheKey print_integer view_c no_filter) = None"
    using cacheKey_not_fallback[of print_integer view_c no_filter] by (auto simp: stale_view_def)
  have o: "offline (request_params print_integer view_c no_filter) = Rejected"
    "offline (request_params print_integer view_b no_filter) = Rejected"
    by (simp_all add: offline_def)
  have j: "serving [sample] (request_params print_integer view_a no_filter) = Json (Some [sample])"
    by (simp add: serving_def)
  have r: "results_or_empty (Some [sample]) = [sample]" by simp
  have e: "[sample] \<noteq> []" by simp
  have k: "cacheKey print_integer view_b no_filter \<noteq> cacheKey print_integer view_a no_filter"
    by (simp add: key_a key_b)
  have f: "(case cache stale_view ''fallback'' of Some fallbackData \<Rightarrow> fallbackData
            | None \<Rightarrow> profiles stale_view) = [january]"
    by (simp add: stale_view_def)
  note T = failed_fetch_falls_back[of stale_view print_integer view_c no_filter offline
      "serving [sample]" view_a no_filter "Some [sample]" view_b no_filter offline,
      unfolded r f]
  from T m o j e k show ?thesis by blast
qed

end
